theory Spec2Isabelle
  imports Complex_Main
begin

section \<open>JavaScript values and errors\<close>

text \<open>
  The plugin receives its inputs as \<^verbatim>\<open>unknown\<close>: settings objects, message histories and
  parsed JSON payloads. They are modelled by the JSON-shaped values below. An object is the
  list of its own properties in the order in which \<^verbatim>\<open>Object.keys\<close> enumerates them (keys
  that are array indices first, in ascending order, then the other keys in insertion
  order). A string is the sequence of its code units, one \<^typ>\<open>char\<close> per unit. A number
  is a double, held as the rational that is its exact value.
\<close>

datatype jv =
    JUndef
  | JNull
  | JBool bool
  | JNum rat
  | JStr string
  | JArr "jv list"
  | JObj "(string \<times> jv) list"

text \<open>
  Every \<^verbatim>\<open>throw\<close> of the source is a value. The three configuration errors, the
  connection error and the not-connected error are the \<^verbatim>\<open>new Error(...)\<close> sites of
  \<^verbatim>\<open>config.ts\<close> and of the \<^verbatim>\<open>AthenaClient\<close> class; \<open>TypeError\<close> and \<open>SyntaxError\<close>
  are raised by the language itself; \<open>SdkFault\<close> is a rejection of the MCP SDK, carried as
  the text \<^verbatim>\<open>String(error)\<close>.
\<close>

datatype error =
    ConfigRequired
  | UnknownKeys "string list"
  | EnvVarNotSet string
  | ConnectionError string
  | NotConnectedError
  | TypeError
  | SyntaxError
  | SdkFault string

text \<open>
  What the language runtime does and the repository does not define is a parameter:
  \<^verbatim>\<open>JSON.parse\<close> (\<open>None\<close> when it throws a \<^verbatim>\<open>SyntaxError\<close>), the text of a number, the
  number a string converts to (\<open>None\<close> is \<^verbatim>\<open>NaN\<close>), and the product of two numbers, which
  the runtime rounds to a double. Infinite numbers, which only an overflow produces, are
  left out.
\<close>

record js_runtime =
  JSON_parse :: "string \<Rightarrow> jv option"
  Number_toString :: "rat \<Rightarrow> string"
  String_toNumber :: "string \<Rightarrow> rat option"
  Number_times :: "rat \<Rightarrow> rat \<Rightarrow> rat"

text \<open>\<^verbatim>\<open>v && typeof v === "object"\<close>: arrays and objects, not \<^verbatim>\<open>null\<close>.\<close>

definition is_object :: "jv \<Rightarrow> bool" where
  "is_object v = (case v of JArr xs \<Rightarrow> True | JObj kvs \<Rightarrow> True | _ \<Rightarrow> False)"

text \<open>\<^verbatim>\<open>typeof v === "object"\<close>, which \<^verbatim>\<open>null\<close> satisfies.\<close>

definition typeof_object :: "jv \<Rightarrow> bool" where
  "typeof_object v =
     (case v of JNull \<Rightarrow> True | JArr xs \<Rightarrow> True | JObj kvs \<Rightarrow> True | _ \<Rightarrow> False)"

text \<open>
  \<^verbatim>\<open>v.k\<close> on a value that is neither \<^verbatim>\<open>null\<close> nor \<^verbatim>\<open>undefined\<close>, for the keys the plugin
  reads (none of them a built-in property): an own property of an object, \<^verbatim>\<open>undefined\<close>
  otherwise.
\<close>

definition prop_of :: "jv \<Rightarrow> string \<Rightarrow> jv" where
  "prop_of v k =
     (case v of
        JObj kvs \<Rightarrow> (case map_of kvs k of Some x \<Rightarrow> x | None \<Rightarrow> JUndef)
      | _ \<Rightarrow> JUndef)"

text \<open>\<^verbatim>\<open>v.k\<close> in general: reading a property of \<^verbatim>\<open>null\<close> or \<^verbatim>\<open>undefined\<close> throws.\<close>

definition get :: "jv \<Rightarrow> string \<Rightarrow> error + jv" where
  "get v k =
     (case v of JUndef \<Rightarrow> Inl TypeError | JNull \<Rightarrow> Inl TypeError | _ \<Rightarrow> Inr (prop_of v k))"

text \<open>\<^verbatim>\<open>k in v\<close>: throws unless \<open>v\<close> is an object or an array.\<close>

definition has_in :: "string \<Rightarrow> jv \<Rightarrow> error + bool" where
  "has_in k v =
     (case v of
        JObj kvs \<Rightarrow> Inr (k \<in> set (map fst kvs))
      | JArr xs \<Rightarrow> Inr False
      | _ \<Rightarrow> Inl TypeError)"

definition falsy :: "jv \<Rightarrow> bool" where
  "falsy v =
     (case v of
        JUndef \<Rightarrow> True
      | JNull \<Rightarrow> True
      | JBool b \<Rightarrow> \<not> b
      | JNum r \<Rightarrow> r = 0
      | JStr s \<Rightarrow> s = []
      | _ \<Rightarrow> False)"

fun join :: "string \<Rightarrow> string list \<Rightarrow> string" where
  "join sep [] = []"
| "join sep [x] = x"
| "join sep (x # y # ys) = x @ sep @ join sep (y # ys)"

text \<open>Evaluating a list of computations in order; the first throw wins.\<close>

fun sequence :: "(error + 'a) list \<Rightarrow> error + 'a list" where
  "sequence [] = Inr []"
| "sequence (x # xs) =
     (case x of
        Inl e \<Rightarrow> Inl e
      | Inr v \<Rightarrow> (case sequence xs of Inl e \<Rightarrow> Inl e | Inr vs \<Rightarrow> Inr (v # vs)))"

text \<open>
  The string a value is coerced to in a concatenation or a template. An array joins its
  elements with commas; a plain object is \<^verbatim>\<open>[object Object]\<close>, and an object that shadows
  \<^verbatim>\<open>toString\<close> with a property of its own (which, in JSON-shaped data, is not callable)
  cannot be converted.
\<close>

fun ToString :: "js_runtime \<Rightarrow> jv \<Rightarrow> error + string" where
  "ToString rt JUndef = Inr ''undefined''"
| "ToString rt JNull = Inr ''null''"
| "ToString rt (JBool b) = Inr (if b then ''true'' else ''false'')"
| "ToString rt (JNum r) = Inr (Number_toString rt r)"
| "ToString rt (JStr s) = Inr s"
| "ToString rt (JArr xs) =
     (case sequence (map (\<lambda>x. if x = JUndef \<or> x = JNull then Inr [] else ToString rt x) xs) of
        Inl e \<Rightarrow> Inl e
      | Inr ss \<Rightarrow> Inr (join '','' ss))"
| "ToString rt (JObj kvs) =
     (if ''toString'' \<in> set (map fst kvs) then Inl TypeError else Inr ''[object Object]'')"

definition ToNumber :: "js_runtime \<Rightarrow> jv \<Rightarrow> error + rat option" where
  "ToNumber rt v =
     (case v of
        JUndef \<Rightarrow> Inr None
      | JNull \<Rightarrow> Inr (Some 0)
      | JBool b \<Rightarrow> Inr (Some (if b then 1 else 0))
      | JNum r \<Rightarrow> Inr (Some r)
      | JStr s \<Rightarrow> Inr (String_toNumber rt s)
      | _ \<Rightarrow> (case ToString rt v of Inl e \<Rightarrow> Inl e | Inr s \<Rightarrow> Inr (String_toNumber rt s)))"

fun digits :: "nat \<Rightarrow> string" where
  "digits n =
     (if n < 10 then [''0123456789'' ! n]
      else digits (n div 10) @ [''0123456789'' ! (n mod 10)])"

declare digits.simps [simp del]

text \<open>
  \<^verbatim>\<open>x.toFixed(1)\<close>, which reads the exact value of the double \<open>x\<close>: the sign, then the
  integer \<open>n\<close> nearest to ten times the magnitude (the larger one on a tie), written with
  one decimal.
\<close>

definition toFixed1 :: "js_runtime \<Rightarrow> rat option \<Rightarrow> string" where
  "toFixed1 rt x =
     (case x of
        None \<Rightarrow> ''NaN''
      | Some r \<Rightarrow>
          if \<bar>r\<bar> \<ge> 10 ^ 21 then Number_toString rt r
          else
            (let n = nat \<lfloor>\<bar>r\<bar> * 10 + 1 / 2\<rfloor>;
                 m = digits (n div 10) @ ''.'' @ digits (n mod 10)
             in if r < 0 then ''-'' @ m else m))"

text \<open>
  White space and line terminators, as \<^verbatim>\<open>trim\<close> and the class \<^verbatim>\<open>\s\<close> read them, among the
  code units a \<^typ>\<open>char\<close> can hold.
\<close>

definition white_space :: "char \<Rightarrow> bool" where
  "white_space c \<longleftrightarrow>
     c \<in> {CHR 0x09, CHR 0x0A, CHR 0x0B, CHR 0x0C, CHR 0x0D, CHR '' '', CHR 0xA0}"

definition trim :: "string \<Rightarrow> string" where
  "trim s = rev (dropWhile white_space (rev (dropWhile white_space s)))"

section \<open>The transport session: class AthenaClient\<close>

datatype AthenaTransport = Stdio | Sse

record AthenaClientConfig =
  cfg_transport :: AthenaTransport
  cfg_pythonPath :: "string option"
  cfg_athenaProjectDir :: "string option"
  cfg_sseUrl :: "string option"

text \<open>
  The two SDK objects a session may hold. A stdio transport is built from the command, its
  arguments, the working directory and the \<^verbatim>\<open>PYTHONPATH\<close> it exports; an SSE transport from
  its URL; the client from its name and version.
\<close>

datatype transport_handle =
    StdioClientTransport string "string list" string string
  | SSEClientTransport string

datatype client_handle = Client string string

text \<open>What crosses the boundary to the SDK, in the order it happens.\<close>

datatype sdk_call =
    SdkConnect transport_handle
  | SdkCallTool string jv
  | SdkClose

datatype sdk_block = TextBlock string | OtherBlock string

datatype sdk_result = CallToolResult "sdk_block list" "bool option"

text \<open>
  The SDK and the process are outside the repository; their behaviour is a parameter. Each
  SDK operation answers from the calls made so far, so that the environment may be
  adaptive. \<open>None\<close> is a promise that resolves, \<open>Some cause\<close> one that rejects with
  \<^verbatim>\<open>String(error) = cause\<close>. An \<open>OtherBlock\<close> carries the text \<^verbatim>\<open>JSON.stringify(block)\<close>.
  A reply of \<open>sdk_callTool\<close> that is \<open>Inl cause\<close> stands for anything thrown inside the
  \<^verbatim>\<open>try\<close> of \<^verbatim>\<open>callTool\<close>: a rejected call, or a reply without a content array.
\<close>

record sdk =
  process_cwd :: string
  new_URL :: "string \<Rightarrow> string option"
  sdk_connect :: "sdk_call list \<Rightarrow> transport_handle \<Rightarrow> string option"
  sdk_callTool :: "sdk_call list \<Rightarrow> string \<Rightarrow> jv \<Rightarrow> string + sdk_result"
  sdk_close :: "sdk_call list \<Rightarrow> string option"

text \<open>
  The private fields of \<^verbatim>\<open>AthenaClient\<close>, and \<open>sdk_log\<close>, a ghost field that records the SDK
  calls the session has issued.
\<close>

record AthenaClient =
  client :: "client_handle option"
  transport :: "transport_handle option"
  config :: AthenaClientConfig
  connected :: bool
  sdk_log :: "sdk_call list"

record AthenaToolResult =
  content :: "string list"
  isError :: "bool option"

definition new_AthenaClient :: "AthenaClientConfig \<Rightarrow> AthenaClient" where
  "new_AthenaClient c =
     \<lparr>client = None, transport = None, config = c, connected = False, sdk_log = []\<rparr>"

definition endsWith :: "string \<Rightarrow> string \<Rightarrow> bool" where
  "endsWith s suf \<longleftrightarrow>
     length suf \<le> length s \<and> drop (length s - length suf) s = suf"

text \<open>\<^verbatim>\<open>x || d\<close> on an optional string: the default when absent or empty.\<close>

definition or_default :: "string option \<Rightarrow> string \<Rightarrow> string" where
  "or_default x d = (case x of None \<Rightarrow> d | Some v \<Rightarrow> if v = [] then d else v)"

definition the_client :: client_handle where
  "the_client = Client ''openclaw-athena-client'' ''1.0.0''"

text \<open>
  \<^verbatim>\<open>connectStdio\<close> and \<^verbatim>\<open>connectSSE\<close> return \<open>Some cause\<close> when they throw. Both store the
  transport and the client in the session before they await the handshake.
\<close>

definition connectStdio :: "sdk \<Rightarrow> AthenaClient \<Rightarrow> string option \<times> AthenaClient" where
  "connectStdio env s =
     (let pythonPath = or_default (cfg_pythonPath (config s)) ''python3'';
          cwd = or_default (cfg_athenaProjectDir (config s)) (process_cwd env);
          srcPath = (if endsWith cwd ''/src'' then cwd else cwd @ ''/src'');
          t = StdioClientTransport pythonPath [''-m'', ''athena.mcp_server''] cwd srcPath;
          s1 = s\<lparr>transport := Some t\<rparr>;
          s2 = s1\<lparr>client := Some the_client\<rparr>
      in (sdk_connect env (sdk_log s2) t, s2\<lparr>sdk_log := sdk_log s2 @ [SdkConnect t]\<rparr>))"

definition connectSSE :: "sdk \<Rightarrow> AthenaClient \<Rightarrow> string option \<times> AthenaClient" where
  "connectSSE env s =
     (let sseUrl = or_default (cfg_sseUrl (config s)) ''http://localhost:8765''
      in case new_URL env sseUrl of
           Some cause \<Rightarrow> (Some cause, s)
         | None \<Rightarrow>
             (let t = SSEClientTransport sseUrl;
                  s1 = s\<lparr>transport := Some t\<rparr>;
                  s2 = s1\<lparr>client := Some the_client\<rparr>
              in (sdk_connect env (sdk_log s2) t,
                  s2\<lparr>sdk_log := sdk_log s2 @ [SdkConnect t]\<rparr>)))"

definition connect :: "sdk \<Rightarrow> AthenaClient \<Rightarrow> (error + unit) \<times> AthenaClient" where
  "connect env s =
     (if connected s then (Inr (), s)
      else case (if cfg_transport (config s) = Stdio then connectStdio env s
                 else connectSSE env s) of
             (None, s') \<Rightarrow> (Inr (), s'\<lparr>connected := True\<rparr>)
           | (Some cause, s') \<Rightarrow> (Inl (ConnectionError cause), s'\<lparr>connected := False\<rparr>))"

definition block_text :: "sdk_block \<Rightarrow> string" where
  "block_text b = (case b of TextBlock t \<Rightarrow> t | OtherBlock json \<Rightarrow> json)"

definition callTool ::
  "sdk \<Rightarrow> string \<Rightarrow> jv \<Rightarrow> AthenaClient \<Rightarrow> (error + AthenaToolResult) \<times> AthenaClient" where
  "callTool env name args s =
     (if client s = None \<or> \<not> connected s then (Inl NotConnectedError, s)
      else
        (let s' = s\<lparr>sdk_log := sdk_log s @ [SdkCallTool name args]\<rparr>
         in case sdk_callTool env (sdk_log s) name args of
              Inr (CallToolResult blocks err) \<Rightarrow>
                (Inr \<lparr>content = map block_text blocks, isError = err\<rparr>, s')
            | Inl cause \<Rightarrow>
                (Inr \<lparr>content = [''Error: '' @ cause], isError = Some True\<rparr>, s')))"

definition disconnect :: "sdk \<Rightarrow> AthenaClient \<Rightarrow> (error + unit) \<times> AthenaClient" where
  "disconnect env s =
     (case client s of
        None \<Rightarrow> (Inr (), s\<lparr>transport := None, connected := False\<rparr>)
      | Some c \<Rightarrow>
          (let s' = s\<lparr>sdk_log := sdk_log s @ [SdkClose]\<rparr>
           in case sdk_close env (sdk_log s) of
                Some cause \<Rightarrow> (Inl (SdkFault cause), s')
              | None \<Rightarrow> (Inr (), s'\<lparr>client := None, transport := None, connected := False\<rparr>)))"

definition isConnected :: "AthenaClient \<Rightarrow> bool" where
  "isConnected s = connected s"

text \<open>
  A history of a session: the public methods called on it, in order. \<open>run_ops\<close> plays a
  history and also reports whether some \<^verbatim>\<open>connect()\<close> of it completed successfully.
\<close>

datatype session_op = OpConnect | OpDisconnect | OpCallTool string jv

fun run_ops :: "sdk \<Rightarrow> session_op list \<Rightarrow> AthenaClient \<Rightarrow> bool \<times> AthenaClient" where
  "run_ops env [] s = (False, s)"
| "run_ops env (OpConnect # ops) s =
     (case connect env s of
        (Inr u, s') \<Rightarrow> (True, snd (run_ops env ops s'))
      | (Inl e, s') \<Rightarrow> run_ops env ops s')"
| "run_ops env (OpDisconnect # ops) s = run_ops env ops (snd (disconnect env s))"
| "run_ops env (OpCallTool name args # ops) s =
     run_ops env ops (snd (callTool env name args s))"

text \<open>A session that says it is connected holds a client.\<close>

definition holds_client :: "AthenaClient \<Rightarrow> bool" where
  "holds_client s \<longleftrightarrow> (connected s \<longrightarrow> client s \<noteq> None)"

section \<open>Regular expressions\<close>

text \<open>
  The patterns of the plugin use character classes, literals, alternation, sequence and
  greedy repetition of a class. \<open>ms r s\<close> lists what remains of \<open>s\<close> after each way of
  matching \<open>r\<close> at its start, in the order a backtracking matcher tries them: the left
  alternative first, the longest repetition first. \<open>match_re s r\<close> is \<^verbatim>\<open>s.match(r)\<close> for a
  pattern without the global flag: the text of the first match, at the leftmost position
  that has one.
\<close>

datatype re =
    Eps
  | Cls "char \<Rightarrow> bool"
  | AtLeast nat "char \<Rightarrow> bool"
  | Seq re re
  | Alt re re

fun greedy :: "(char \<Rightarrow> bool) \<Rightarrow> nat \<Rightarrow> string \<Rightarrow> string list" where
  "greedy p n [] = (if n = 0 then [[]] else [])"
| "greedy p n (c # cs) =
     (if p c then greedy p (n - 1) cs else []) @ (if n = 0 then [c # cs] else [])"

fun ms :: "re \<Rightarrow> string \<Rightarrow> string list" where
  "ms Eps s = [s]"
| "ms (Cls p) s = (case s of [] \<Rightarrow> [] | c # cs \<Rightarrow> if p c then [cs] else [])"
| "ms (AtLeast n p) s = greedy p n s"
| "ms (Seq a b) s = concat (map (ms b) (ms a s))"
| "ms (Alt a b) s = ms a s @ ms b s"

definition match_at :: "re \<Rightarrow> string \<Rightarrow> string option" where
  "match_at r s =
     (case ms r s of [] \<Rightarrow> None | rest # others \<Rightarrow> Some (take (length s - length rest) s))"

fun match_re :: "string \<Rightarrow> re \<Rightarrow> string option" where
  "match_re [] r = match_at r []"
| "match_re (c # cs) r =
     (case match_at r (c # cs) of Some m \<Rightarrow> Some m | None \<Rightarrow> match_re cs r)"

text \<open>The classes \<^verbatim>\<open>\d\<close>, \<^verbatim>\<open>\w\<close> and \<^verbatim>\<open>[\w.-]\<close>; \<^verbatim>\<open>\s\<close> is \<open>white_space\<close>.\<close>

definition digit :: "char \<Rightarrow> bool" where
  "digit c \<longleftrightarrow> c \<in> set ''0123456789''"

definition word_char :: "char \<Rightarrow> bool" where
  "word_char c \<longleftrightarrow>
     c \<in> set ''abcdefghijklmnopqrstuvwxyzABCDEFGHIJKLMNOPQRSTUVWXYZ0123456789_''"

definition word_dot_dash :: "char \<Rightarrow> bool" where
  "word_dot_dash c \<longleftrightarrow> word_char c \<or> c = CHR ''.'' \<or> c = CHR ''-''"

text \<open>
  Under the flag \<^verbatim>\<open>i\<close> a literal letter matches both of its cases; without the flag
  \<^verbatim>\<open>u\<close> no character outside ASCII folds to an ASCII letter.
\<close>

definition to_upper :: "char \<Rightarrow> char" where
  "to_upper c =
     (case map_of (zip ''abcdefghijklmnopqrstuvwxyz'' ''ABCDEFGHIJKLMNOPQRSTUVWXYZ'') c of
        Some u \<Rightarrow> u
      | None \<Rightarrow> c)"

definition chr :: "char \<Rightarrow> re" where
  "chr c = Cls (\<lambda>x. x = c)"

definition chr_i :: "char \<Rightarrow> re" where
  "chr_i c = Cls (\<lambda>x. to_upper x = to_upper c)"

fun lit_i :: "string \<Rightarrow> re" where
  "lit_i [] = Eps"
| "lit_i (c # cs) = Seq (chr_i c) (lit_i cs)"

fun alts :: "re list \<Rightarrow> re" where
  "alts [] = Eps"
| "alts [r] = r"
| "alts (r # q # rs) = Alt r (alts (q # rs))"

text \<open>
  The words a pattern matches, whatever the order in which a matcher tries them: the
  language of the pattern.
\<close>

fun lang :: "re \<Rightarrow> string \<Rightarrow> bool" where
  "lang Eps w \<longleftrightarrow> w = []"
| "lang (Cls p) w \<longleftrightarrow> (\<exists>c. w = [c] \<and> p c)"
| "lang (AtLeast n p) w \<longleftrightarrow> n \<le> length w \<and> list_all p w"
| "lang (Seq a b) w \<longleftrightarrow> (\<exists>u v. w = u @ v \<and> lang a u \<and> lang b v)"
| "lang (Alt a b) w \<longleftrightarrow> lang a w \<or> lang b w"

section \<open>The message analyzer\<close>



text \<open>
  \<^verbatim>\<open>generateSummary\<close>. The inner loop appends the \<^verbatim>\<open>text\<close> of every block that passes
  \<^verbatim>\<open>typeof block === "object" && "text" in block\<close>; the outer loop carries
  \<^verbatim>\<open>firstUserMsg\<close> and \<^verbatim>\<open>lastUserMsg\<close>.
\<close>

fun summary_blocks :: "js_runtime \<Rightarrow> jv list \<Rightarrow> string \<Rightarrow> error + string" where
  "summary_blocks rt [] text = Inr text"
| "summary_blocks rt (block # blocks) text =
     (if typeof_object block then
        (case has_in ''text'' block of
           Inl e \<Rightarrow> Inl e
         | Inr False \<Rightarrow> summary_blocks rt blocks text
         | Inr True \<Rightarrow>
             (case ToString rt (prop_of block ''text'') of
                Inl e \<Rightarrow> Inl e
              | Inr t \<Rightarrow> summary_blocks rt blocks (text @ t)))
      else summary_blocks rt blocks text)"

definition summary_text :: "js_runtime \<Rightarrow> jv \<Rightarrow> error + string" where
  "summary_text rt c =
     (case c of
        JStr s \<Rightarrow> Inr (trim s)
      | JArr blocks \<Rightarrow>
          (case summary_blocks rt blocks [] of Inl e \<Rightarrow> Inl e | Inr text \<Rightarrow> Inr (trim text))
      | _ \<Rightarrow> Inr [])"

fun summary_loop ::
  "js_runtime \<Rightarrow> jv list \<Rightarrow> string \<Rightarrow> string \<Rightarrow> error + string \<times> string" where
  "summary_loop rt [] firstUserMsg lastUserMsg = Inr (firstUserMsg, lastUserMsg)"
| "summary_loop rt (msg # msgs) firstUserMsg lastUserMsg =
     (if \<not> is_object msg then summary_loop rt msgs firstUserMsg lastUserMsg
      else if prop_of msg ''role'' \<noteq> JStr ''user'' then
        summary_loop rt msgs firstUserMsg lastUserMsg
      else
        (case summary_text rt (prop_of msg ''content'') of
           Inl e \<Rightarrow> Inl e
         | Inr text \<Rightarrow>
             if text = [] then summary_loop rt msgs firstUserMsg lastUserMsg
             else summary_loop rt msgs
                    (if firstUserMsg = [] then take 80 text else firstUserMsg) (take 80 text)))"

text \<open>
  The separator of the summary: a space, an arrow and a space. The arrow of the source
  file lies outside the code units a \<^typ>\<open>char\<close> can hold; it is kept as the bytes the
  file has between the two spaces.
\<close>

definition arrow :: string where
  "arrow = [CHR 0xC3, CHR 0xA2, CHR 0xE2, CHR 0x80, CHR 0xA0, CHR 0xE2, CHR 0x80, CHR 0x99]"

definition generateSummary :: "js_runtime \<Rightarrow> jv list \<Rightarrow> error + string" where
  "generateSummary rt messages =
     (case summary_loop rt messages [] [] of
        Inl e \<Rightarrow> Inl e
      | Inr (firstUserMsg, lastUserMsg) \<Rightarrow>
          if firstUserMsg = [] then Inr ''Conversation with user''
          else if firstUserMsg = lastUserMsg then Inr firstUserMsg
          else Inr (firstUserMsg @ '' '' @ arrow @ '' '' @ lastUserMsg))"

text \<open>
  \<^verbatim>\<open>extractKeyFacts\<close>. The six patterns, in the order of the source:
  \<^verbatim>\<open>/\+\d{10,}/\<close>, \<^verbatim>\<open>/[\w.-]+@[\w.-]+\.\w+/\<close>, \<^verbatim>\<open>/(my|name is|i'm|i am)\s+\w+/i\<close>,
  \<^verbatim>\<open>/(prefer|like|love|hate|want|need)\s+/i\<close>, \<^verbatim>\<open>/(remember|don't forget|make sure)\s+/i\<close>
  and \<^verbatim>\<open>/(decided|will use|going to)\s+/i\<close>. \<open>CHR 0x27\<close> is the apostrophe.
\<close>

definition importantPatterns :: "re list" where
  "importantPatterns =
     [Seq (chr CHR ''+'') (AtLeast 10 digit),
      Seq (AtLeast 1 word_dot_dash) (Seq (chr CHR ''@'') (Seq (AtLeast 1 word_dot_dash)
        (Seq (chr CHR ''.'') (AtLeast 1 word_char)))),
      Seq (alts [lit_i ''my'', lit_i ''name is'', lit_i (''i'' @ [CHR 0x27] @ ''m''),
                 lit_i ''i am''])
        (Seq (AtLeast 1 white_space) (AtLeast 1 word_char)),
      Seq (alts [lit_i ''prefer'', lit_i ''like'', lit_i ''love'', lit_i ''hate'',
                 lit_i ''want'', lit_i ''need''])
        (AtLeast 1 white_space),
      Seq (alts [lit_i ''remember'', lit_i (''don'' @ [CHR 0x27] @ ''t forget''),
                 lit_i ''make sure''])
        (AtLeast 1 white_space),
      Seq (alts [lit_i ''decided'', lit_i ''will use'', lit_i ''going to''])
        (AtLeast 1 white_space)]"

fun facts_blocks :: "js_runtime \<Rightarrow> jv list \<Rightarrow> string \<Rightarrow> error + string" where
  "facts_blocks rt [] text = Inr text"
| "facts_blocks rt (block # blocks) text =
     (if typeof_object block then
        (case has_in ''text'' block of
           Inl e \<Rightarrow> Inl e
         | Inr False \<Rightarrow> facts_blocks rt blocks text
         | Inr True \<Rightarrow>
             (case ToString rt (prop_of block ''text'') of
                Inl e \<Rightarrow> Inl e
              | Inr t \<Rightarrow> facts_blocks rt blocks (text @ (t @ '' ''))))
      else facts_blocks rt blocks text)"

definition facts_text :: "js_runtime \<Rightarrow> jv \<Rightarrow> error + string" where
  "facts_text rt c =
     (case c of
        JStr s \<Rightarrow> Inr s
      | JArr blocks \<Rightarrow> facts_blocks rt blocks []
      | _ \<Rightarrow> Inr [])"

text \<open>The loop over the patterns, pushing \<^verbatim>\<open>match[0]\<close> onto \<^verbatim>\<open>facts\<close>.\<close>

fun match_patterns :: "re list \<Rightarrow> string \<Rightarrow> string list \<Rightarrow> string list" where
  "match_patterns [] text facts = facts"
| "match_patterns (pattern # patterns) text facts =
     (case match_re text pattern of
        Some m \<Rightarrow> match_patterns patterns text (facts @ [m])
      | None \<Rightarrow> match_patterns patterns text facts)"

fun facts_loop :: "js_runtime \<Rightarrow> jv list \<Rightarrow> string list \<Rightarrow> error + string list" where
  "facts_loop rt [] facts = Inr facts"
| "facts_loop rt (msg # msgs) facts =
     (if \<not> is_object msg then facts_loop rt msgs facts
      else if prop_of msg ''role'' \<noteq> JStr ''user'' then facts_loop rt msgs facts
      else
        (case facts_text rt (prop_of msg ''content'') of
           Inl e \<Rightarrow> Inl e
         | Inr text \<Rightarrow> facts_loop rt msgs (match_patterns importantPatterns text facts)))"

text \<open>
  \<^verbatim>\<open>[...new Set(facts)]\<close>: the entries of a set are kept in insertion order, and adding a
  value the set has changes nothing.
\<close>

fun new_Set :: "'a list \<Rightarrow> 'a list \<Rightarrow> 'a list" where
  "new_Set [] entries = entries"
| "new_Set (x # xs) entries = new_Set xs (if x \<in> set entries then entries else entries @ [x])"

definition extractKeyFacts :: "js_runtime \<Rightarrow> jv list \<Rightarrow> error + string list" where
  "extractKeyFacts rt messages =
     (case facts_loop rt messages [] of
        Inl e \<Rightarrow> Inl e
      | Inr facts \<Rightarrow> Inr (take 5 (new_Set facts [])))"

subsection \<open>What the analyzer is specified to compute\<close>

text \<open>
  The definitions of this subsection follow the words of the specification, to be compared
  with the loops above. First, a message of the human participant and its text: a content
  that is a string is the text; of a content that is an array, the text is made of the
  \<^verbatim>\<open>text\<close> of each block that has one, each followed by a space; any other content has no
  text. No text can be read from a block that is \<^verbatim>\<open>null\<close>.
\<close>

definition is_user_message :: "jv \<Rightarrow> bool" where
  "is_user_message msg \<longleftrightarrow> is_object msg \<and> prop_of msg ''role'' = JStr ''user''"

definition block_part :: "js_runtime \<Rightarrow> jv \<Rightarrow> error + string" where
  "block_part rt b =
     (case b of
        JNull \<Rightarrow> Inl TypeError
      | JObj kvs \<Rightarrow>
          (case map_of kvs ''text'' of
             None \<Rightarrow> Inr []
           | Some v \<Rightarrow> (case ToString rt v of Inl e \<Rightarrow> Inl e | Inr t \<Rightarrow> Inr (t @ '' '')))
      | _ \<Rightarrow> Inr [])"

definition message_text :: "js_runtime \<Rightarrow> jv \<Rightarrow> error + string" where
  "message_text rt c =
     (case c of
        JStr s \<Rightarrow> Inr s
      | JArr blocks \<Rightarrow>
          (case sequence (map (block_part rt) blocks) of
             Inl e \<Rightarrow> Inl e
           | Inr parts \<Rightarrow> Inr (concat parts))
      | _ \<Rightarrow> Inr [])"

definition user_texts :: "js_runtime \<Rightarrow> jv list \<Rightarrow> error + string list" where
  "user_texts rt messages =
     sequence (map (\<lambda>msg. message_text rt (prop_of msg ''content''))
                 (filter is_user_message messages))"

text \<open>
  A content from which a text can always be read: no block of it is \<^verbatim>\<open>null\<close>, and no block
  has an object or an array for its \<^verbatim>\<open>text\<close>.
\<close>

definition readable_block :: "jv \<Rightarrow> bool" where
  "readable_block b \<longleftrightarrow> b \<noteq> JNull \<and> \<not> is_object (prop_of b ''text'')"

definition readable_content :: "jv \<Rightarrow> bool" where
  "readable_content c = (case c of JArr blocks \<Rightarrow> list_all readable_block blocks | _ \<Rightarrow> True)"

text \<open>
  The six categories, as sets of words, written without reference to a matcher. A phone
  number is a plus sign and ten or more digits. An email address is a local part, an at
  sign, a domain, a dot and an ending: the local part and the domain are made of word
  characters, dots and dashes, the ending of word characters, and none of them is empty.
  The other four start with one of the phrases of the category, in any mix of upper and
  lower case, followed by white space; an identity statement goes on with a word.
\<close>

definition same_letters :: "string \<Rightarrow> string \<Rightarrow> bool" where
  "same_letters p u \<longleftrightarrow> map to_upper u = map to_upper p"

definition phone_number :: "string \<Rightarrow> bool" where
  "phone_number w \<longleftrightarrow> (\<exists>ds. w = CHR ''+'' # ds \<and> 10 \<le> length ds \<and> list_all digit ds)"

definition email_address :: "string \<Rightarrow> bool" where
  "email_address w \<longleftrightarrow>
     (\<exists>a b c. w = a @ CHR ''@'' # b @ CHR ''.'' # c
        \<and> a \<noteq> [] \<and> list_all word_dot_dash a
        \<and> b \<noteq> [] \<and> list_all word_dot_dash b
        \<and> c \<noteq> [] \<and> list_all word_char c)"

definition phrase_and_space :: "string list \<Rightarrow> string \<Rightarrow> bool" where
  "phrase_and_space ps w \<longleftrightarrow>
     (\<exists>k sp. w = k @ sp \<and> (\<exists>p \<in> set ps. same_letters p k)
        \<and> sp \<noteq> [] \<and> list_all white_space sp)"

definition identity_statement :: "string \<Rightarrow> bool" where
  "identity_statement w \<longleftrightarrow>
     (\<exists>ks nm. w = ks @ nm
        \<and> phrase_and_space [''my'', ''name is'', ''i'' @ [CHR 0x27] @ ''m'', ''i am''] ks
        \<and> nm \<noteq> [] \<and> list_all word_char nm)"

definition preference :: "string \<Rightarrow> bool" where
  "preference = phrase_and_space [''prefer'', ''like'', ''love'', ''hate'', ''want'', ''need'']"

definition reminder :: "string \<Rightarrow> bool" where
  "reminder =
     phrase_and_space [''remember'', ''don'' @ [CHR 0x27] @ ''t forget'', ''make sure'']"

definition decision :: "string \<Rightarrow> bool" where
  "decision = phrase_and_space [''decided'', ''will use'', ''going to'']"

definition categories :: "(string \<Rightarrow> bool) list" where
  "categories =
     [phone_number, email_address, identity_statement, preference, reminder, decision]"

text \<open>
  The first match of a category in a text: a word of the category that the text contains,
  at the leftmost place where the text contains any word of the category. What the scan of
  a text for a category yields is such a first match, or nothing when the text contains no
  word of the category.
\<close>

definition occurs_in :: "(string \<Rightarrow> bool) \<Rightarrow> string \<Rightarrow> bool" where
  "occurs_in cat text \<longleftrightarrow> (\<exists>pre w post. text = pre @ w @ post \<and> cat w)"

definition leftmost_in :: "(string \<Rightarrow> bool) \<Rightarrow> string \<Rightarrow> string \<Rightarrow> bool" where
  "leftmost_in cat text m \<longleftrightarrow>
     cat m \<and>
     (\<exists>pre post. text = pre @ m @ post \<and>
        (\<forall>pre' w post'. text = pre' @ w @ post' \<and> cat w \<longrightarrow> length pre \<le> length pre'))"

definition pick_of :: "string \<Rightarrow> (string \<Rightarrow> bool) \<Rightarrow> string option \<Rightarrow> bool" where
  "pick_of text cat p =
     (case p of None \<Rightarrow> \<not> occurs_in cat text | Some m \<Rightarrow> leftmost_in cat text m)"

text \<open>
  The candidates of a text are what the scans for the six patterns yield, in the order of
  the patterns; repetitions are removed from the list of all candidates by keeping each
  value at the place of its first occurrence.
\<close>

definition first_matches :: "string \<Rightarrow> string list" where
  "first_matches text = List.map_filter id (map (match_re text) importantPatterns)"

fun first_seen :: "'a list \<Rightarrow> 'a list" where
  "first_seen [] = []"
| "first_seen (x # xs) = x # filter (\<lambda>y. y \<noteq> x) (first_seen xs)"

text \<open>
  For the summary: the trimmed texts of the human messages, and the summary of such texts,
  made of the first 80 characters of the first and of the last text that is not empty.
\<close>

definition summary_texts :: "js_runtime \<Rightarrow> jv list \<Rightarrow> error + string list" where
  "summary_texts rt messages =
     sequence (map (\<lambda>msg. summary_text rt (prop_of msg ''content''))
                 (filter is_user_message messages))"

definition summary_of :: "string list \<Rightarrow> string" where
  "summary_of texts =
     (case filter (\<lambda>t. t \<noteq> []) texts of
        [] \<Rightarrow> ''Conversation with user''
      | t # ts \<Rightarrow>
          if take 80 t = take 80 (last (t # ts)) then take 80 t
          else take 80 t @ '' '' @ arrow @ '' '' @ take 80 (last (t # ts)))"

section \<open>The lifecycle controller\<close>

subsection \<open>Reading the reply of the search tool\<close>

text \<open>\<^verbatim>\<open>parsed.results?.results || []\<close>.\<close>

definition results_of :: "jv \<Rightarrow> error + jv" where
  "results_of parsed =
     (case get parsed ''results'' of
        Inl e \<Rightarrow> Inl e
      | Inr outer \<Rightarrow>
          (let inner = (if outer = JUndef \<or> outer = JNull then JUndef
                        else prop_of outer ''results'')
           in Inr (if falsy inner then JArr [] else inner)))"

text \<open>Calling \<^verbatim>\<open>map\<close> or \<^verbatim>\<open>filter\<close> on a value: only an array has them.\<close>

definition array_of :: "jv \<Rightarrow> error + jv list" where
  "array_of v = (case v of JArr xs \<Rightarrow> Inr xs | _ \<Rightarrow> Inl TypeError)"

text \<open>One line of \<^verbatim>\<open>parseSearchResults\<close>: the template
  \<^verbatim>\<open>[${(r.rrf_score * 100).toFixed(1)}%] ${r.id}: ${r.content}\<close>.\<close>

definition format_result :: "js_runtime \<Rightarrow> jv \<Rightarrow> error + string" where
  "format_result rt r =
     (case get r ''rrf_score'' of
        Inl e \<Rightarrow> Inl e
      | Inr score \<Rightarrow>
          (case ToNumber rt score of
             Inl e \<Rightarrow> Inl e
           | Inr x \<Rightarrow>
               (case ToString rt (prop_of r ''id'') of
                  Inl e \<Rightarrow> Inl e
                | Inr ident \<Rightarrow>
                    (case ToString rt (prop_of r ''content'') of
                       Inl e \<Rightarrow> Inl e
                     | Inr body \<Rightarrow>
                         Inr (''['' @ toFixed1 rt (map_option (\<lambda>v. Number_times rt v 100) x) @ ''%] ''
                              @ ident @ '': '' @ body)))))"

text \<open>The body of the \<^verbatim>\<open>try\<close> of \<^verbatim>\<open>parseSearchResults\<close>, and the function with its
  \<^verbatim>\<open>catch\<close>, which returns the text unparsed.\<close>

definition parseSearchResults_try :: "js_runtime \<Rightarrow> string \<Rightarrow> error + string list" where
  "parseSearchResults_try rt resultText =
     (case JSON_parse rt resultText of
        None \<Rightarrow> Inl SyntaxError
      | Some parsed \<Rightarrow>
          (case results_of parsed of
             Inl e \<Rightarrow> Inl e
           | Inr results \<Rightarrow>
               (case array_of results of
                  Inl e \<Rightarrow> Inl e
                | Inr rs \<Rightarrow> sequence (map (format_result rt) rs))))"

definition parseSearchResults :: "js_runtime \<Rightarrow> string \<Rightarrow> string list" where
  "parseSearchResults rt resultText =
     (case parseSearchResults_try rt resultText of Inl e \<Rightarrow> [resultText] | Inr ls \<Rightarrow> ls)"

text \<open>
  The literal \<^verbatim>\<open>0.01\<close> is the double nearest to one hundredth, which lies a little above
  it: \<open>5764607523034235 / 2 ^ 59\<close>.
\<close>

definition double_0_01 :: rat where
  "double_0_01 = 5764607523034235 / 576460752303423488"

text \<open>The callback of the filter, \<^verbatim>\<open>r.rrf_score > 0.01\<close>; a comparison with \<^verbatim>\<open>NaN\<close> is
  false.\<close>

definition is_meaningful :: "js_runtime \<Rightarrow> jv \<Rightarrow> error + bool" where
  "is_meaningful rt r =
     (case get r ''rrf_score'' of
        Inl e \<Rightarrow> Inl e
      | Inr score \<Rightarrow>
          (case ToNumber rt score of
             Inl e \<Rightarrow> Inl e
           | Inr None \<Rightarrow> Inr False
           | Inr (Some x) \<Rightarrow> Inr (x > double_0_01)))"

fun filter_e :: "('a \<Rightarrow> error + bool) \<Rightarrow> 'a list \<Rightarrow> error + 'a list" where
  "filter_e p [] = Inr []"
| "filter_e p (x # xs) =
     (case p x of
        Inl e \<Rightarrow> Inl e
      | Inr keep \<Rightarrow>
          (case filter_e p xs of
             Inl e \<Rightarrow> Inl e
           | Inr ys \<Rightarrow> Inr (if keep then x # ys else ys)))"

definition newline :: string where
  "newline = [CHR 0x0A]"

text \<open>
  What the turn-start handler does with the text of the first content block: parse it,
  filter the candidates, and when one is left build the context from
  \<^verbatim>\<open>parseSearchResults(resultText)\<close>.
\<close>

definition recall_context :: "js_runtime \<Rightarrow> string \<Rightarrow> error + string option" where
  "recall_context rt resultText =
     (case JSON_parse rt resultText of
        None \<Rightarrow> Inl SyntaxError
      | Some parsed \<Rightarrow>
          (case results_of parsed of
             Inl e \<Rightarrow> Inl e
           | Inr results \<Rightarrow>
               (case array_of results of
                  Inl e \<Rightarrow> Inl e
                | Inr rs \<Rightarrow>
                    (case filter_e (is_meaningful rt) rs of
                       Inl e \<Rightarrow> Inl e
                     | Inr meaningfulResults \<Rightarrow>
                         if length meaningfulResults > 0 then
                           (let formattedResults = parseSearchResults rt resultText
                            in Inr (Some (''[Athena Memory] Relevant context from past sessions:''
                                          @ newline @ join newline formattedResults)))
                         else Inr None))))"

subsection \<open>Turn start: \<^verbatim>\<open>before_agent_start\<close>\<close>

text \<open>
  The prompt of the event is a string or an array of strings, or is absent. The handler
  returns \<open>Some text\<close> for \<^verbatim>\<open>{ prependContext: text }\<close> and \<open>None\<close> when it returns nothing.
  The variable \<^verbatim>\<open>athenaClient\<close> is assigned once, at registration, and is never null.
\<close>

datatype prompt = PromptString string | PromptArray "string list"

record before_agent_start_event =
  ev_prompt :: "prompt option"

text \<open>\<^verbatim>\<open>event.prompt && event.prompt.length > 0\<close>, for a prompt that is present.\<close>

definition prompt_nonempty :: "prompt \<Rightarrow> bool" where
  "prompt_nonempty p =
     (case p of PromptString x \<Rightarrow> length x > 0 | PromptArray xs \<Rightarrow> length xs > 0)"

definition search_args :: "string \<Rightarrow> jv" where
  "search_args userPrompt =
     JObj [(''query'', JStr userPrompt), (''limit'', JNum 3), (''strict'', JBool False),
           (''rerank'', JBool False)]"

definition before_agent_start_try ::
  "js_runtime \<Rightarrow> sdk \<Rightarrow> before_agent_start_event \<Rightarrow> AthenaClient
     \<Rightarrow> (error + string option) \<times> AthenaClient" where
  "before_agent_start_try rt env event s =
     (case connect env s of
        (Inl e, s1) \<Rightarrow> (Inl e, s1)
      | (Inr u, s1) \<Rightarrow>
          (case ev_prompt event of
             None \<Rightarrow> (Inr None, s1)
           | Some p \<Rightarrow>
               if prompt_nonempty p then
                 (let userPrompt =
                        (case p of PromptArray xs \<Rightarrow> join '' '' xs | PromptString x \<Rightarrow> x)
                  in if length userPrompt > 10 then
                       (case callTool env ''smart_search'' (search_args userPrompt) s1 of
                          (Inl e, s2) \<Rightarrow> (Inl e, s2)
                        | (Inr searchResult, s2) \<Rightarrow>
                            if isError searchResult \<noteq> Some True
                               \<and> length (content searchResult) > 0
                            then (recall_context rt (hd (content searchResult)), s2)
                            else (Inr None, s2))
                     else (Inr None, s1))
               else (Inr None, s1)))"

text \<open>The \<^verbatim>\<open>catch\<close> logs a warning and the handler returns nothing.\<close>

definition before_agent_start ::
  "js_runtime \<Rightarrow> sdk \<Rightarrow> before_agent_start_event \<Rightarrow> AthenaClient
     \<Rightarrow> string option \<times> AthenaClient" where
  "before_agent_start rt env event s =
     (case before_agent_start_try rt env event s of
        (Inl err, s') \<Rightarrow> (None, s')
      | (Inr r, s') \<Rightarrow> (r, s'))"

subsection \<open>Turn end: \<^verbatim>\<open>agent_end\<close>\<close>





subsection \<open>What the controller is specified to do\<close>

text \<open>
  The prompts for which recall is skipped, in the words of the specification: no prompt,
  an empty one, or one of at most ten characters (for an array, the text it joins to).
\<close>

definition recall_skipped :: "before_agent_start_event \<Rightarrow> bool" where
  "recall_skipped event =
     (case ev_prompt event of
        None \<Rightarrow> True
      | Some (PromptString x) \<Rightarrow> length x \<le> 10
      | Some (PromptArray xs) \<Rightarrow> xs = [] \<or> length (join '' '' xs) \<le> 10)"

definition is_tool_call :: "sdk_call \<Rightarrow> bool" where
  "is_tool_call c = (case c of SdkCallTool name args \<Rightarrow> True | _ \<Rightarrow> False)"

section \<open>Configuration: \<^verbatim>\<open>config.ts\<close>\<close>

text \<open>
  The process around the parser: the environment variables, the home directory and
  \<^verbatim>\<open>path.join\<close>. \<^verbatim>\<open>process.env\<close> is an object: besides the variables, which are its own
  properties, a lookup \<^verbatim>\<open>process.env[name]\<close> finds the properties the object inherits
  (\<^verbatim>\<open>toString\<close>, \<^verbatim>\<open>constructor\<close> and the like). Their values are functions and objects,
  all of them truthy; \<open>process_env_inherited\<close> gives for such a name the text
  \<^verbatim>\<open>String(value)\<close>.
\<close>

record node =
  process_env :: "string \<Rightarrow> string option"
  process_env_inherited :: "string \<Rightarrow> string option"
  homedir :: string
  path_join :: "string list \<Rightarrow> string"

record AthenaMemoryConfig =
  enabled :: bool
  transport_kind :: AthenaTransport
  pythonPath :: string
  athenaProjectDir :: string
  sseUrl :: string
  toolPrefix :: string

definition DEFAULT_TOOL_PREFIX :: string where
  "DEFAULT_TOOL_PREFIX = ''athena_''"

definition DEFAULT_PYTHON_PATH :: string where
  "DEFAULT_PYTHON_PATH = ''python3''"

definition DEFAULT_SSE_URL :: string where
  "DEFAULT_SSE_URL = ''http://localhost:8765''"

definition resolveDefaultAthenaProjectDir :: "node \<Rightarrow> string" where
  "resolveDefaultAthenaProjectDir nd =
     (let home = homedir nd;
          workspace = path_join nd [home, ''Desktop'', ''openclaw_codebase''];
          athenaDir = path_join nd [workspace, ''Athena-Public'']
      in athenaDir)"

definition assertAllowedKeys :: "(string \<times> jv) list \<Rightarrow> string list \<Rightarrow> error + unit" where
  "assertAllowedKeys val allowed =
     (let unknown = filter (\<lambda>key. key \<notin> set allowed) (map fst val)
      in if length unknown = 0 then Inr () else Inl (UnknownKeys unknown))"

text \<open>
  The pattern \<^verbatim>\<open>/\$\{([^}]+)\}/\<close> at the start of a string: a dollar sign, an opening
  brace, one or more characters that are not a closing brace, as many as there are, and a
  closing brace. The result is the captured name and what follows the match.
\<close>

definition env_ref :: "string \<Rightarrow> (string \<times> string) option" where
  "env_ref s =
     (case s of
        c1 # c2 # body \<Rightarrow>
          if c1 = CHR ''$'' \<and> c2 = CHR ''{'' then
            (let envVar = takeWhile (\<lambda>c. c \<noteq> CHR ''}'') body;
                 rest = dropWhile (\<lambda>c. c \<noteq> CHR ''}'') body
             in if envVar \<noteq> [] \<and> rest \<noteq> [] then Some (envVar, tl rest) else None)
          else None
      | _ \<Rightarrow> None)"

lemma env_ref_shorter: "env_ref s = Some (v, rest) \<Longrightarrow> length rest < length s"
proof -
  assume "env_ref s = Some (v, rest)"
  then obtain body where s: "s = CHR ''$'' # CHR ''{'' # body"
    and r: "rest = tl (dropWhile (\<lambda>c. c \<noteq> CHR ''}'') body)"
    by (auto simp: env_ref_def Let_def split: list.splits if_splits)
  have "length (dropWhile (\<lambda>c. c \<noteq> CHR ''}'') body) \<le> length body"
    by (rule length_dropWhile_le)
  with s r show ?thesis by simp
qed

text \<open>The same pattern, for the matcher of the section on regular expressions.\<close>

definition env_pattern :: re where
  "env_pattern =
     Seq (chr CHR ''$'') (Seq (chr CHR ''{'') (Seq (AtLeast 1 (\<lambda>c. c \<noteq> CHR ''}'')) (chr CHR ''}'')))"

text \<open>
  \<^verbatim>\<open>process.env[envVar]\<close> as the callback of \<open>resolveEnvVars\<close> uses it: \<open>None\<close> when
  \<^verbatim>\<open>!envValue\<close>, that is when the lookup finds nothing or finds the empty string, and
  otherwise the text that replaces the reference.
\<close>

definition env_lookup :: "node \<Rightarrow> string \<Rightarrow> string option" where
  "env_lookup nd envVar =
     (case process_env nd envVar of
        Some envValue \<Rightarrow> if envValue = [] then None else Some envValue
      | None \<Rightarrow> process_env_inherited nd envVar)"

text \<open>
  \<^verbatim>\<open>value.replace(/\$\{([^}]+)\}/g, ...)\<close>: the string is scanned from the left; a match is
  replaced by what the callback returns and the scan goes on after it; the callback throws
  when \<^verbatim>\<open>!envValue\<close>.
\<close>

function resolveEnvVars :: "node \<Rightarrow> string \<Rightarrow> error + string" where
  "resolveEnvVars nd [] = Inr []"
| "resolveEnvVars nd (c # cs) =
     (case env_ref (c # cs) of
        Some (envVar, rest) \<Rightarrow>
          (case env_lookup nd envVar of
             None \<Rightarrow> Inl (EnvVarNotSet envVar)
           | Some envValue \<Rightarrow>
               (case resolveEnvVars nd rest of
                  Inl e \<Rightarrow> Inl e
                | Inr out \<Rightarrow> Inr (envValue @ out)))
      | None \<Rightarrow>
          (case resolveEnvVars nd cs of Inl e \<Rightarrow> Inl e | Inr out \<Rightarrow> Inr (c # out)))"
  by pat_completeness auto
termination
  by (relation "measure (\<lambda>(nd, s). length s)") (auto dest: env_ref_shorter)

definition allowed_keys :: "string list" where
  "allowed_keys =
     [''enabled'', ''transport'', ''pythonPath'', ''athenaProjectDir'', ''sseUrl'', ''toolPrefix'']"

text \<open>\<^verbatim>\<open>typeof v === "string" ? resolveEnvVars(v) : d\<close>.\<close>

definition string_or :: "node \<Rightarrow> jv \<Rightarrow> string \<Rightarrow> error + string" where
  "string_or nd v d = (case v of JStr s \<Rightarrow> resolveEnvVars nd s | _ \<Rightarrow> Inr d)"

text \<open>\<^verbatim>\<open>athenaMemoryConfigSchema.parse\<close>. Only a plain object passes the first check.\<close>

definition parse :: "node \<Rightarrow> jv \<Rightarrow> error + AthenaMemoryConfig" where
  "parse nd val =
     (case val of
        JObj cfg \<Rightarrow>
          (case assertAllowedKeys cfg allowed_keys of
             Inl e \<Rightarrow> Inl e
           | Inr u \<Rightarrow>
               (case string_or nd (prop_of val ''pythonPath'') DEFAULT_PYTHON_PATH of
                  Inl e \<Rightarrow> Inl e
                | Inr pythonPath' \<Rightarrow>
                    (case string_or nd (prop_of val ''athenaProjectDir'')
                            (resolveDefaultAthenaProjectDir nd) of
                       Inl e \<Rightarrow> Inl e
                     | Inr athenaProjectDir' \<Rightarrow>
                         (case string_or nd (prop_of val ''sseUrl'') DEFAULT_SSE_URL of
                            Inl e \<Rightarrow> Inl e
                          | Inr sseUrl' \<Rightarrow>
                              Inr \<lparr>enabled = (prop_of val ''enabled'' = JBool True),
                                   transport_kind =
                                     (if prop_of val ''transport'' = JStr ''sse'' then Sse
                                      else Stdio),
                                   pythonPath = pythonPath',
                                   athenaProjectDir = athenaProjectDir',
                                   sseUrl = sseUrl',
                                   toolPrefix =
                                     (case prop_of val ''toolPrefix'' of
                                        JStr s \<Rightarrow> s
                                      | _ \<Rightarrow> DEFAULT_TOOL_PREFIX)\<rparr>))))
      | _ \<Rightarrow> Inl ConfigRequired)"

subsection \<open>What interpolation is specified to do\<close>

text \<open>
  The variables a string refers to, as the scan of \<open>resolveEnvVars\<close> meets them, and the
  string with every reference replaced by what \<open>f\<close> gives for its name. A variable is
  usable when it is set to a value that is not empty, and the references of a setting are
  usable when it is not a string or all the variables it refers to are.
\<close>

function env_refs :: "string \<Rightarrow> string list" where
  "env_refs [] = []"
| "env_refs (c # cs) =
     (case env_ref (c # cs) of
        Some (envVar, rest) \<Rightarrow> envVar # env_refs rest
      | None \<Rightarrow> env_refs cs)"
  by pat_completeness auto
termination
  by (relation "measure length") (auto dest: env_ref_shorter)

function substitute :: "(string \<Rightarrow> string) \<Rightarrow> string \<Rightarrow> string" where
  "substitute f [] = []"
| "substitute f (c # cs) =
     (case env_ref (c # cs) of
        Some (envVar, rest) \<Rightarrow> f envVar @ substitute f rest
      | None \<Rightarrow> c # substitute f cs)"
  by pat_completeness auto
termination
  by (relation "measure (\<lambda>(f, s). length s)") (auto dest: env_ref_shorter)

definition env_value :: "node \<Rightarrow> string \<Rightarrow> string" where
  "env_value nd v = (case process_env nd v of Some x \<Rightarrow> x | None \<Rightarrow> [])"

definition usable :: "node \<Rightarrow> string \<Rightarrow> bool" where
  "usable nd v = (case process_env nd v of Some x \<Rightarrow> x \<noteq> [] | None \<Rightarrow> False)"

definition refs_usable :: "node \<Rightarrow> jv \<Rightarrow> bool" where
  "refs_usable nd v =
     (case v of JStr s \<Rightarrow> list_all (usable nd) (env_refs s) | _ \<Rightarrow> True)"






definition is_string :: "jv \<Rightarrow> bool" where
  "is_string v = (case v of JStr s \<Rightarrow> True | _ \<Rightarrow> False)"

section \<open>Concrete inputs\<close>

definition stdio_config :: AthenaClientConfig where
  "stdio_config =
     \<lparr>cfg_transport = Stdio, cfg_pythonPath = Some ''python3'',
      cfg_athenaProjectDir = Some ''/opt/athena'', cfg_sseUrl = None\<rparr>"

text \<open>An SDK whose handshake always rejects (the interpreter cannot be spawned).\<close>

definition refusing_sdk :: sdk where
  "refusing_sdk =
     \<lparr>process_cwd = ''/srv'', new_URL = (\<lambda>u. None),
      sdk_connect = (\<lambda>h t. Some ''Error: spawn python3 ENOENT''),
      sdk_callTool = (\<lambda>h n a. Inl ''Error: Not connected''),
      sdk_close = (\<lambda>h. None)\<rparr>"

text \<open>An SDK that connects, and answers every tool call with one text block.\<close>

definition replying_sdk :: "string \<Rightarrow> sdk" where
  "replying_sdk payload =
     \<lparr>process_cwd = ''/srv'', new_URL = (\<lambda>u. None),
      sdk_connect = (\<lambda>h t. None),
      sdk_callTool = (\<lambda>h n a. Inr (CallToolResult [TextBlock payload] None)),
      sdk_close = (\<lambda>h. None)\<rparr>"

text \<open>An SDK that connects, and whose every tool call rejects.\<close>

definition faulting_sdk :: sdk where
  "faulting_sdk =
     \<lparr>process_cwd = ''/srv'', new_URL = (\<lambda>u. None),
      sdk_connect = (\<lambda>h t. None),
      sdk_callTool = (\<lambda>h n a. Inl ''McpError: Request timed out''),
      sdk_close = (\<lambda>h. None)\<rparr>"


definition stdio_transport :: transport_handle where
  "stdio_transport =
     StdioClientTransport ''python3'' [''-m'', ''athena.mcp_server''] ''/opt/athena''
       ''/opt/athena/src''"

text \<open>The session of \<open>stdio_config\<close> after a successful \<^verbatim>\<open>connect()\<close>.\<close>

definition connected_session :: AthenaClient where
  "connected_session =
     \<lparr>client = Some the_client, transport = Some stdio_transport, config = stdio_config,
      connected = True, sdk_log = [SdkConnect stdio_transport]\<rparr>"

text \<open>A runtime for inputs that hold no JSON text and no number.\<close>

definition rt0 :: js_runtime where
  "rt0 = \<lparr>JSON_parse = (\<lambda>s. None), Number_toString = (\<lambda>r. ''0''),
          String_toNumber = (\<lambda>s. None), Number_times = (\<lambda>x y. x * y)\<rparr>"


text \<open>
  A history with three messages of role user, one of them made of blocks, in which every
  category has a match.
\<close>

definition fact_turns :: "jv list" where
  "fact_turns =
     [JObj [(''role'', JStr ''user''),
            (''content'', JStr ''Hi, my name is Sam: mail sam.s@mail.example.org or call +12345678901!'')],
      JObj [(''role'', JStr ''assistant''), (''content'', JStr ''I will use that, Sam'')],
      JObj [(''role'', JStr ''user''),
            (''content'',
             JArr [JObj [(''type'', JStr ''text''), (''text'', JStr ''I PREFER  tea.'')],
                   JObj [(''type'', JStr ''image'')],
                   JObj [(''type'', JStr ''text''),
                         (''text'', JStr ''Remember to call Sam, I decided to go'')]])],
      JObj [(''role'', JStr ''user''), (''content'', JStr ''so my name is Sam'')]]"

text \<open>
  A reply of the search tool with two candidates, of scores \<open>0.5\<close> and \<open>0.0078125\<close>, and a
  runtime whose \<^verbatim>\<open>JSON.parse\<close> reads that reply. Both scores are doubles, and so are their
  products with 100, \<open>50\<close> and \<open>0.78125\<close>: on them the product of the runtime is the exact
  one.
\<close>

definition search_payload :: string where
  \<open>search_payload =
     ''{"results":{"results":[{"id":"a.md","content":"call Sam","rrf_score":0.5},{"id":"b.md","content":"buy milk","rrf_score":0.0078125}]}}''\<close>

definition candidate_a :: jv where
  "candidate_a =
     JObj [(''id'', JStr ''a.md''), (''content'', JStr ''call Sam''),
           (''rrf_score'', JNum (1 / 2))]"

definition candidate_b :: jv where
  "candidate_b =
     JObj [(''id'', JStr ''b.md''), (''content'', JStr ''buy milk''),
           (''rrf_score'', JNum (1 / 128))]"

definition search_reply :: jv where
  "search_reply = JObj [(''results'', JObj [(''results'', JArr [candidate_a, candidate_b])])]"

definition rt1 :: js_runtime where
  "rt1 = \<lparr>JSON_parse = (\<lambda>s. if s = search_payload then Some search_reply else None),
          Number_toString = (\<lambda>r. ''0''), String_toNumber = (\<lambda>s. None),
          Number_times = (\<lambda>x y. x * y)\<rparr>"

text \<open>
  A process in which \<^verbatim>\<open>ATHENA_HOME\<close> and \<^verbatim>\<open>athena_port\<close> are set, \<^verbatim>\<open>EMPTY\<close> is set to the
  empty string and no other variable is set; of the inherited properties, \<^verbatim>\<open>toString\<close> is
  listed.
\<close>

definition nd0 :: node where
  "nd0 = \<lparr>process_env = (\<lambda>v. if v = ''ATHENA_HOME'' then Some ''/srv/athena''
                            else if v = ''athena_port'' then Some ''8765''
                            else if v = ''EMPTY'' then Some [] else None),
          process_env_inherited =
            (\<lambda>v. if v = ''toString'' then Some ''function toString() { [native code] }''
                 else None),
          homedir = ''/home/u'',
          path_join = join ''/''\<rparr>"

text \<open>Settings in which every value but one has a type the schema does not expect.\<close>

definition typed_settings :: "(string \<times> jv) list" where
  "typed_settings =
     [(''enabled'', JStr ''true''), (''transport'', JStr ''SSE''), (''pythonPath'', JNum 3),
      (''athenaProjectDir'', JStr ''${ATHENA_HOME}/Athena-Public''), (''sseUrl'', JNull),
      (''toolPrefix'', JArr [])]"

section \<open>Properties of the transport session\<close>

lemma connect_failed_disconnected:
  "connect env s = (Inl e, s') \<Longrightarrow> \<not> connected s'"
  by (auto simp: connect_def split: if_splits prod.splits option.splits)

lemma disconnect_keeps_disconnected:
  "\<not> connected s \<Longrightarrow> \<not> connected (snd (disconnect env s))"
  by (auto simp: disconnect_def Let_def split: option.splits)

lemma callTool_keeps_connected:
  "connected (snd (callTool env name args s)) = connected s"
  by (auto simp: callTool_def Let_def split: sum.splits sdk_result.splits)

lemma run_ops_never_connected:
  "\<not> connected s0 \<Longrightarrow> run_ops env ops s0 = (False, s) \<Longrightarrow> \<not> connected s"
proof (induction env ops s0 rule: run_ops.induct)
  case (1 env s)
  then show ?case by simp
next
  case (2 env ops s)
  then show ?case
    by (auto split: prod.splits sum.splits dest: connect_failed_disconnected)
next
  case (3 env ops s)
  then show ?case by (simp add: disconnect_keeps_disconnected)
next
  case (4 env name args ops s)
  then show ?case by (simp add: callTool_keeps_connected)
qed

lemma connect_holds: "holds_client s \<Longrightarrow> holds_client (snd (connect env s))"
  by (auto simp: holds_client_def connect_def connectStdio_def connectSSE_def Let_def
      split: if_splits prod.splits option.splits)

lemma disconnect_holds: "holds_client s \<Longrightarrow> holds_client (snd (disconnect env s))"
  by (auto simp: holds_client_def disconnect_def Let_def split: option.splits)

lemma callTool_holds: "holds_client s \<Longrightarrow> holds_client (snd (callTool env name args s))"
  by (auto simp: holds_client_def callTool_def Let_def split: sum.splits sdk_result.splits)

lemma run_ops_holds: "holds_client s0 \<Longrightarrow> holds_client (snd (run_ops env ops s0))"
proof (induction env ops s0 rule: run_ops.induct)
  case (2 env ops s)
  from connect_holds [OF "2.prems", of env] "2.IH" show ?case
    by (auto split: prod.splits sum.splits)
qed (simp_all add: disconnect_holds callTool_holds)

lemma new_AthenaClient_holds: "holds_client (new_AthenaClient c)"
  by (simp add: holds_client_def new_AthenaClient_def)

text \<open>
  C9. Take any session, created by the constructor and driven through any history of
  \<^verbatim>\<open>connect\<close>, \<^verbatim>\<open>disconnect\<close> and \<^verbatim>\<open>callTool\<close> calls in which no \<^verbatim>\<open>connect()\<close> completed
  successfully. Then \<^verbatim>\<open>isConnected()\<close> is false and \<^verbatim>\<open>callTool\<close> throws the not-connected
  error, whatever the tool name and the arguments. The session is returned as it was: no
  SDK call is issued, so nothing is connected on the caller's behalf and the failure is
  not a fault of the transport.
\<close>

theorem callTool_before_connect:
  assumes "run_ops env ops (new_AthenaClient c) = (False, s)"
  shows "\<not> isConnected s \<and> callTool env name args s = (Inl NotConnectedError, s)"
proof -
  have "\<not> connected (new_AthenaClient c)" by (simp add: new_AthenaClient_def)
  from run_ops_never_connected [OF this assms] have "\<not> connected s" .
  then show ?thesis by (simp add: isConnected_def callTool_def)
qed

theorem callTool_before_connect_witness:
  "run_ops refusing_sdk [OpConnect, OpDisconnect] (new_AthenaClient stdio_config)
     = (False, snd (run_ops refusing_sdk [OpConnect, OpDisconnect] (new_AthenaClient stdio_config)))
   \<and> \<not> isConnected (snd (run_ops refusing_sdk [OpConnect, OpDisconnect] (new_AthenaClient stdio_config)))
   \<and> callTool refusing_sdk ''smart_search'' (JObj [])
        (snd (run_ops refusing_sdk [OpConnect, OpDisconnect] (new_AthenaClient stdio_config)))
     = (Inl NotConnectedError,
        snd (run_ops refusing_sdk [OpConnect, OpDisconnect] (new_AthenaClient stdio_config)))"
proof -
  have played: "run_ops refusing_sdk [OpConnect, OpDisconnect] (new_AthenaClient stdio_config)
     = (False, snd (run_ops refusing_sdk [OpConnect, OpDisconnect] (new_AthenaClient stdio_config)))"
    by (simp add: connect_def connectStdio_def disconnect_def refusing_sdk_def
        new_AthenaClient_def stdio_config_def Let_def)
  from callTool_before_connect [OF played, of "''smart_search''" "JObj []"] played
  show ?thesis by simp
qed

text \<open>
  C5. Take any session reached from the constructor that says it is connected. Then
  \<^verbatim>\<open>callTool\<close> returns a result and never throws, whatever the tool name, the arguments and
  the behaviour of the SDK. When the remote invocation or the transport faults, the result
  has the error flag set and its content is exactly one text block, the diagnostic
  \<^verbatim>\<open>Error: \<close> followed by the cause.
\<close>

theorem callTool_errors_are_data:
  assumes "snd (run_ops env ops (new_AthenaClient c)) = s" and "isConnected s"
  shows "\<exists>r. fst (callTool env name args s) = Inr r \<and>
           (\<forall>cause. sdk_callTool env (sdk_log s) name args = Inl cause \<longrightarrow>
              isError r = Some True \<and> length (content r) = 1 \<and>
              content r = [''Error: '' @ cause])"
proof -
  from run_ops_holds [OF new_AthenaClient_holds, of env ops c] assms
  have "client s \<noteq> None" and "connected s"
    by (auto simp: holds_client_def isConnected_def)
  then show ?thesis
    by (auto simp: callTool_def Let_def split: sum.splits sdk_result.splits)
qed

theorem callTool_errors_are_data_witness:
  "isConnected (snd (run_ops faulting_sdk [OpConnect] (new_AthenaClient stdio_config)))
   \<and> fst (callTool faulting_sdk ''quicksave'' (JObj [(''summary'', JStr ''hello'')])
        (snd (run_ops faulting_sdk [OpConnect] (new_AthenaClient stdio_config))))
     = Inr \<lparr>content = [''Error: McpError: Request timed out''], isError = Some True\<rparr>"
proof -
  have live: "isConnected (snd (run_ops faulting_sdk [OpConnect] (new_AthenaClient stdio_config)))"
    by (simp add: connect_def connectStdio_def faulting_sdk_def isConnected_def
        new_AthenaClient_def stdio_config_def Let_def)
  from callTool_errors_are_data [OF refl live, of "''quicksave''" "JObj [(''summary'', JStr ''hello'')]"]
  obtain r where r: "fst (callTool faulting_sdk ''quicksave'' (JObj [(''summary'', JStr ''hello'')])
        (snd (run_ops faulting_sdk [OpConnect] (new_AthenaClient stdio_config)))) = Inr r"
    and diag: "isError r = Some True \<and> length (content r) = 1 \<and>
        content r = [''Error: '' @ ''McpError: Request timed out'']"
    by (auto simp: faulting_sdk_def)
  from diag have "r = \<lparr>content = [''Error: McpError: Request timed out''], isError = Some True\<rparr>"
    by (cases r) simp
  with r live show ?thesis by simp
qed

text \<open>
  C4, on the code. A fresh stdio session whose handshake rejects: \<^verbatim>\<open>connect()\<close> throws the
  connection error with the cause and \<^verbatim>\<open>isConnected()\<close> stays false, but the client and the
  transport that \<^verbatim>\<open>connectStdio\<close> stored before awaiting the handshake are still held.
\<close>

theorem connect_failure_retains_handles:
  "connect refusing_sdk (new_AthenaClient stdio_config) =
     (Inl (ConnectionError ''Error: spawn python3 ENOENT''),
      \<lparr>client = Some the_client,
       transport = Some (StdioClientTransport ''python3'' [''-m'', ''athena.mcp_server'']
                           ''/opt/athena'' ''/opt/athena/src''),
       config = stdio_config, connected = False,
       sdk_log = [SdkConnect (StdioClientTransport ''python3'' [''-m'', ''athena.mcp_server'']
                                ''/opt/athena'' ''/opt/athena/src'')]\<rparr>)"
  by (simp add: connect_def connectStdio_def refusing_sdk_def new_AthenaClient_def
      stdio_config_def or_default_def endsWith_def Let_def)

section \<open>Properties of the message analyzer\<close>

text \<open>
  A match that \<open>match_re\<close> returns starts at the leftmost position of the text at which
  the pattern matches, and \<open>match_re\<close> returns none only when no position has a match.
\<close>

lemma match_re_first:
  "match_re s r = Some m \<Longrightarrow>
     \<exists>k \<le> length s. match_at r (drop k s) = Some m \<and> (\<forall>j < k. match_at r (drop j s) = None)"
proof (induction s)
  case Nil
  then show ?case by simp
next
  case (Cons c cs)
  show ?case
  proof (cases "match_at r (c # cs)")
    case (Some m')
    with Cons.prems have "match_at r (drop 0 (c # cs)) = Some m" by simp
    then show ?thesis by blast
  next
    case None
    with Cons.prems have "match_re cs r = Some m" by simp
    from Cons.IH [OF this] obtain k where k: "k \<le> length cs"
      "match_at r (drop k cs) = Some m" "\<forall>j < k. match_at r (drop j cs) = None"
      by blast
    have "\<forall>j < Suc k. match_at r (drop j (c # cs)) = None"
    proof (intro allI impI)
      fix j assume "j < Suc k"
      with None k(3) show "match_at r (drop j (c # cs)) = None"
        by (cases j) auto
    qed
    with k(1,2) show ?thesis
      by (intro exI [of _ "Suc k"]) simp
  qed
qed

lemma match_re_none:
  "match_re s r = None \<Longrightarrow> \<forall>j \<le> length s. match_at r (drop j s) = None"
proof (induction s)
  case Nil
  then show ?case by simp
next
  case (Cons c cs)
  from Cons.prems have here: "match_at r (c # cs) = None" and "match_re cs r = None"
    by (auto split: option.splits)
  from Cons.IH [OF this(2)] have later: "\<forall>j \<le> length cs. match_at r (drop j cs) = None" .
  show ?case
  proof (intro allI impI)
    fix j assume "j \<le> length (c # cs)"
    with here later show "match_at r (drop j (c # cs)) = None"
      by (cases j) auto
  qed
qed

lemma first_seen_filter: "first_seen (filter P xs) = filter P (first_seen xs)"
proof (induction xs)
  case Nil
  show ?case by simp
next
  case (Cons a xs)
  show ?case
  proof (cases "P a")
    case True
    with Cons show ?thesis by (simp add: conj_commute)
  next
    case False
    then have "filter (\<lambda>y. y \<noteq> a \<and> P y) (first_seen xs) = filter P (first_seen xs)"
      by (intro filter_cong) auto
    with False Cons show ?thesis by simp
  qed
qed

lemma set_first_seen: "set (first_seen xs) = set xs"
  by (induction xs) auto

lemma distinct_first_seen: "distinct (first_seen xs)"
  by (induction xs) (auto simp: set_first_seen)

lemma new_Set_first_seen:
  "new_Set xs entries = entries @ first_seen (filter (\<lambda>y. y \<notin> set entries) xs)"
proof (induction xs arbitrary: entries)
  case Nil
  show ?case by simp
next
  case (Cons x xs)
  show ?case
  proof (cases "x \<in> set entries")
    case True
    with Cons show ?thesis by simp
  next
    case False
    have "first_seen (filter (\<lambda>y. y \<noteq> x \<and> y \<notin> set entries) xs) =
          filter (\<lambda>y. y \<noteq> x) (first_seen (filter (\<lambda>y. y \<notin> set entries) xs))"
      by (simp add: first_seen_filter conj_commute)
    with False Cons [of "entries @ [x]"] show ?thesis by simp
  qed
qed

text \<open>
  The matcher finds the words of the language of a pattern, and no others: what remains
  after a match at the start of a string is what remains after a word of the language.
  So a match that \<open>match_re\<close> returns is a first match of the language, and the six
  patterns have the six categories for their languages.
\<close>

lemma greedy_set:
  "rest \<in> set (greedy p n s) \<longleftrightarrow> (\<exists>w. s = w @ rest \<and> n \<le> length w \<and> list_all p w)"
proof (induction s arbitrary: n)
  case Nil
  show ?case by auto
next
  case (Cons c cs)
  have "(\<exists>w. c # cs = w @ rest \<and> n \<le> length w \<and> list_all p w) \<longleftrightarrow>
        (n = 0 \<and> rest = c # cs) \<or> (p c \<and> (\<exists>w. cs = w @ rest \<and> n - 1 \<le> length w \<and> list_all p w))"
    (is "?l \<longleftrightarrow> ?r")
  proof
    assume ?l
    then obtain w where w: "c # cs = w @ rest" "n \<le> length w" "list_all p w" by blast
    show ?r
    proof (cases w)
      case Nil
      with w show ?thesis by simp
    next
      case (Cons a w')
      with w have "p c \<and> cs = w' @ rest \<and> n - 1 \<le> length w' \<and> list_all p w'" by auto
      then show ?thesis by blast
    qed
  next
    assume ?r
    then show ?l
    proof
      assume "n = 0 \<and> rest = c # cs"
      then have "c # cs = [] @ rest \<and> n \<le> length ([]::string) \<and> list_all p []" by simp
      then show ?l by blast
    next
      assume "p c \<and> (\<exists>w. cs = w @ rest \<and> n - 1 \<le> length w \<and> list_all p w)"
      then obtain w where "p c" "cs = w @ rest" "n - 1 \<le> length w" "list_all p w" by blast
      then have "c # cs = (c # w) @ rest \<and> n \<le> length (c # w) \<and> list_all p (c # w)" by auto
      then show ?l by blast
    qed
  qed
  with Cons [of "n - 1"] show ?case by auto
qed

lemma ms_lang: "rest \<in> set (ms r s) \<longleftrightarrow> (\<exists>w. lang r w \<and> s = w @ rest)"
proof (induction r arbitrary: s rest)
  case Eps
  show ?case by auto
next
  case (Cls p)
  show ?case by (cases s) auto
next
  case (AtLeast n p)
  show ?case by (auto simp: greedy_set)
next
  case (Seq a b)
  have "rest \<in> set (ms (Seq a b) s) \<longleftrightarrow> (\<exists>mid \<in> set (ms a s). rest \<in> set (ms b mid))"
    by auto
  also have "\<dots> \<longleftrightarrow> (\<exists>mid u v. lang a u \<and> s = u @ mid \<and> lang b v \<and> mid = v @ rest)"
    using Seq by blast
  also have "\<dots> \<longleftrightarrow> (\<exists>w. lang (Seq a b) w \<and> s = w @ rest)"
  proof
    assume "\<exists>mid u v. lang a u \<and> s = u @ mid \<and> lang b v \<and> mid = v @ rest"
    then obtain u v where "lang a u" "lang b v" "s = (u @ v) @ rest" by auto
    then have "lang (Seq a b) (u @ v) \<and> s = (u @ v) @ rest" by auto
    then show "\<exists>w. lang (Seq a b) w \<and> s = w @ rest" by blast
  next
    assume "\<exists>w. lang (Seq a b) w \<and> s = w @ rest"
    then obtain u v where "lang a u" "lang b v" "s = u @ (v @ rest)" by auto
    then show "\<exists>mid u v. lang a u \<and> s = u @ mid \<and> lang b v \<and> mid = v @ rest" by blast
  qed
  finally show ?case .
next
  case (Alt a b)
  then show ?case by auto
qed

lemma match_at_Some:
  assumes "match_at r s = Some m"
  shows "lang r m \<and> (\<exists>rest. s = m @ rest)"
proof -
  from assms obtain rest others where ms: "ms r s = rest # others"
    and m: "m = take (length s - length rest) s"
    by (auto simp: match_at_def split: list.splits)
  then have "rest \<in> set (ms r s)" by simp
  then obtain w where "lang r w" "s = w @ rest" by (auto simp: ms_lang)
  with m show ?thesis by auto
qed

lemma match_at_None: "match_at r s = None \<longleftrightarrow> \<not> (\<exists>w rest. lang r w \<and> s = w @ rest)"
proof -
  have "match_at r s = None \<longleftrightarrow> set (ms r s) = {}"
    by (auto simp: match_at_def split: list.splits)
  also have "\<dots> \<longleftrightarrow> \<not> (\<exists>rest. rest \<in> set (ms r s))" by auto
  also have "\<dots> \<longleftrightarrow> \<not> (\<exists>w rest. lang r w \<and> s = w @ rest)"
    unfolding ms_lang by blast
  finally show ?thesis .
qed

lemma match_re_pick: "pick_of text (lang r) (match_re text r)"
proof (cases "match_re text r")
  case None
  have "\<not> occurs_in (lang r) text"
  proof
    assume "occurs_in (lang r) text"
    then obtain pre w post where t: "text = pre @ w @ post" and w: "lang r w"
      by (auto simp: occurs_in_def)
    from t have "length pre \<le> length text" by simp
    with match_re_none [OF None] have "match_at r (drop (length pre) text) = None" by blast
    with t w show False by (auto simp: match_at_None)
  qed
  with None show ?thesis by (simp add: pick_of_def)
next
  case (Some m)
  from match_re_first [OF Some] obtain k where k: "k \<le> length text"
    and at: "match_at r (drop k text) = Some m"
    and before: "\<forall>j < k. match_at r (drop j text) = None"
    by blast
  from match_at_Some [OF at] obtain rest where m: "lang r m" and d: "drop k text = m @ rest"
    by blast
  have t: "text = take k text @ m @ rest"
    using d append_take_drop_id [of k "text"] by simp
  have "length (take k text) \<le> length pre'"
    if "text = pre' @ w @ post'" and "lang r w" for pre' w post'
  proof (rule ccontr)
    assume "\<not> length (take k text) \<le> length pre'"
    with k have "length pre' < k" by simp
    with before have "match_at r (drop (length pre') text) = None" by blast
    with that show False by (auto simp: match_at_None)
  qed
  with m t have "leftmost_in (lang r) text m"
    unfolding leftmost_in_def by blast
  with Some show ?thesis by (simp add: pick_of_def)
qed

lemma lang_chr: "lang (chr c) w \<longleftrightarrow> w = [c]"
  by (auto simp: chr_def)

lemma lang_lit_i: "lang (lit_i p) u \<longleftrightarrow> same_letters p u"
proof (induction p arbitrary: u)
  case Nil
  show ?case by (simp add: same_letters_def)
next
  case (Cons c cs)
  show ?case
  proof (cases u)
    case Nil
    then show ?thesis by (simp add: same_letters_def chr_i_def)
  next
    case (Cons x xs)
    have "lang (lit_i (c # cs)) (x # xs) \<longleftrightarrow> to_upper x = to_upper c \<and> lang (lit_i cs) xs"
    proof
      assume "lang (lit_i (c # cs)) (x # xs)"
      then show "to_upper x = to_upper c \<and> lang (lit_i cs) xs"
        by (auto simp: chr_i_def Cons_eq_append_conv)
    next
      assume "to_upper x = to_upper c \<and> lang (lit_i cs) xs"
      then have "x # xs = [x] @ xs \<and> lang (chr_i c) [x] \<and> lang (lit_i cs) xs"
        by (simp add: chr_i_def)
      then show "lang (lit_i (c # cs)) (x # xs)"
        unfolding lit_i.simps lang.simps by blast
    qed
    with Cons.IH [of xs] Cons show ?thesis by (auto simp: same_letters_def)
  qed
qed


lemma lang_plus: "lang (AtLeast 1 p) w \<longleftrightarrow> w \<noteq> [] \<and> list_all p w"
  by (cases w) auto

lemma lang_alts: "rs \<noteq> [] \<Longrightarrow> lang (alts rs) w \<longleftrightarrow> (\<exists>r \<in> set rs. lang r w)"
  by (induction rs rule: alts.induct) auto

lemma lang_phrases:
  assumes "ps \<noteq> []"
  shows "lang (Seq (alts (map lit_i ps)) (AtLeast 1 white_space)) = phrase_and_space ps"
proof (rule ext)
  fix w
  from assms have "lang (alts (map lit_i ps)) k \<longleftrightarrow> (\<exists>p \<in> set ps. same_letters p k)" for k
    by (simp add: lang_alts lang_lit_i)
  then show "lang (Seq (alts (map lit_i ps)) (AtLeast 1 white_space)) w = phrase_and_space ps w"
    unfolding lang.simps(4) lang_plus phrase_and_space_def by simp
qed

lemma lang_phone: "lang (Seq (chr CHR ''+'') (AtLeast 10 digit)) = phone_number"
  by (rule ext) (auto simp: lang_chr phone_number_def)

lemma lang_email:
  "lang (Seq (AtLeast 1 word_dot_dash) (Seq (chr CHR ''@'') (Seq (AtLeast 1 word_dot_dash)
        (Seq (chr CHR ''.'') (AtLeast 1 word_char))))) = email_address"
proof (rule ext)
  fix w
  show "lang (Seq (AtLeast 1 word_dot_dash) (Seq (chr CHR ''@'') (Seq (AtLeast 1 word_dot_dash)
        (Seq (chr CHR ''.'') (AtLeast 1 word_char))))) w = email_address w"
    unfolding lang.simps(4) lang_chr lang_plus email_address_def
    by (auto, blast)
qed

lemma lang_identity:
  "lang (Seq (alts (map lit_i ps)) (Seq (AtLeast 1 white_space) (AtLeast 1 word_char))) w
     \<longleftrightarrow> (\<exists>ks nm. w = ks @ nm \<and> lang (Seq (alts (map lit_i ps)) (AtLeast 1 white_space)) ks
           \<and> nm \<noteq> [] \<and> list_all word_char nm)"
proof
  assume "lang (Seq (alts (map lit_i ps)) (Seq (AtLeast 1 white_space) (AtLeast 1 word_char))) w"
  then obtain k sp nm where "w = (k @ sp) @ nm" "lang (alts (map lit_i ps)) k"
    "lang (AtLeast 1 white_space) sp" "lang (AtLeast 1 word_char) nm"
    by auto
  then have "w = (k @ sp) @ nm \<and> lang (Seq (alts (map lit_i ps)) (AtLeast 1 white_space)) (k @ sp)
      \<and> nm \<noteq> [] \<and> list_all word_char nm"
    unfolding lang_plus lang.simps(4) by blast
  then show "\<exists>ks nm. w = ks @ nm \<and> lang (Seq (alts (map lit_i ps)) (AtLeast 1 white_space)) ks
           \<and> nm \<noteq> [] \<and> list_all word_char nm"
    by blast
next
  assume "\<exists>ks nm. w = ks @ nm \<and> lang (Seq (alts (map lit_i ps)) (AtLeast 1 white_space)) ks
           \<and> nm \<noteq> [] \<and> list_all word_char nm"
  then obtain k sp nm where "w = k @ (sp @ nm)" "lang (alts (map lit_i ps)) k"
    "lang (AtLeast 1 white_space) sp" "lang (AtLeast 1 word_char) nm"
    unfolding lang_plus lang.simps(4) by auto
  then show "lang (Seq (alts (map lit_i ps)) (Seq (AtLeast 1 white_space) (AtLeast 1 word_char))) w"
    unfolding lang.simps(4) by blast
qed

lemma patterns_lang: "map lang importantPatterns = categories"
proof -
  have identity: "lang (Seq (alts (map lit_i [''my'', ''name is'', ''i'' @ [CHR 0x27] @ ''m'', ''i am'']))
                 (Seq (AtLeast 1 white_space) (AtLeast 1 word_char))) = identity_statement"
  proof (rule ext)
    fix w
    have "lang (Seq (alts (map lit_i [''my'', ''name is'', ''i'' @ [CHR 0x27] @ ''m'', ''i am'']))
            (AtLeast 1 white_space))
          = phrase_and_space [''my'', ''name is'', ''i'' @ [CHR 0x27] @ ''m'', ''i am'']"
      by (rule lang_phrases) simp
    then show "lang (Seq (alts (map lit_i [''my'', ''name is'', ''i'' @ [CHR 0x27] @ ''m'', ''i am'']))
                 (Seq (AtLeast 1 white_space) (AtLeast 1 word_char))) w = identity_statement w"
      by (simp only: lang_identity identity_statement_def)
  qed
  have preference: "lang (Seq (alts (map lit_i [''prefer'', ''like'', ''love'', ''hate'', ''want'', ''need'']))
        (AtLeast 1 white_space)) = preference"
    unfolding preference_def by (rule lang_phrases) simp
  have reminder: "lang (Seq (alts (map lit_i [''remember'', ''don'' @ [CHR 0x27] @ ''t forget'', ''make sure'']))
        (AtLeast 1 white_space)) = reminder"
    unfolding reminder_def by (rule lang_phrases) simp
  have decision: "lang (Seq (alts (map lit_i [''decided'', ''will use'', ''going to'']))
        (AtLeast 1 white_space)) = decision"
    unfolding decision_def by (rule lang_phrases) simp
  show ?thesis
    unfolding importantPatterns_def categories_def list.map lang_phone lang_email
      identity [unfolded list.map] preference [unfolded list.map] reminder [unfolded list.map]
      decision [unfolded list.map]
    by (rule refl)
qed

lemma picks_of_patterns:
  "list_all2 (pick_of text) (map lang ps) (map (match_re text) ps)"
  by (induction ps) (simp_all add: match_re_pick)

lemma map_filter_picks: "List.map_filter f xs = List.map_filter id (map f xs)"
  by (simp add: List.map_filter_def filter_map comp_def)


lemma match_patterns_append:
  "match_patterns ps text facts = facts @ List.map_filter id (map (match_re text) ps)"
  by (induction ps arbitrary: facts) (auto split: option.splits)

lemma facts_blocks_parts:
  "facts_blocks rt blocks acc =
     (case sequence (map (block_part rt) blocks) of
        Inl e \<Rightarrow> Inl e
      | Inr parts \<Rightarrow> Inr (acc @ concat parts))"
proof (induction blocks arbitrary: acc)
  case Nil
  show ?case by simp
next
  case (Cons b blocks)
  show ?case
  proof (cases b)
    case (JObj kvs)
    show ?thesis
    proof (cases "map_of kvs ''text''")
      case None
      then have "''text'' \<notin> set (map fst kvs)"
        by (simp add: map_of_eq_None_iff)
      with None JObj show ?thesis
        by (simp add: Cons typeof_object_def has_in_def block_part_def split: sum.splits)
    next
      case (Some v)
      then have "''text'' \<in> set (map fst kvs)"
        by (auto dest: map_of_SomeD intro: rev_image_eqI)
      with Some JObj show ?thesis
        by (simp add: Cons typeof_object_def has_in_def block_part_def prop_of_def
            split: sum.splits)
    qed
  qed (simp_all add: Cons typeof_object_def has_in_def block_part_def split: sum.splits)
qed

lemma facts_text_message_text: "facts_text rt c = message_text rt c"
  by (cases c) (simp_all add: facts_text_def message_text_def facts_blocks_parts split: sum.splits)

lemma facts_loop_candidates:
  "facts_loop rt msgs facts =
     (case user_texts rt msgs of
        Inl e \<Rightarrow> Inl e
      | Inr texts \<Rightarrow> Inr (facts @ concat (map first_matches texts)))"
proof (induction msgs arbitrary: facts)
  case Nil
  show ?case by (simp add: user_texts_def)
next
  case (Cons msg msgs)
  show ?case
  proof (cases "is_user_message msg")
    case False
    with Cons show ?thesis by (auto simp: is_user_message_def user_texts_def)
  next
    case True
    with Cons show ?thesis
      by (auto simp: is_user_message_def user_texts_def match_patterns_append
          facts_text_message_text first_matches_def [symmetric] split: sum.splits)
  qed
qed

lemma sequence_returns:
  "\<forall>x \<in> set xs. \<exists>v. x = Inr v \<Longrightarrow> \<exists>vs. sequence xs = Inr vs"
  by (induction xs) auto

lemma ToString_returns: "\<not> is_object v \<Longrightarrow> \<exists>t. ToString rt v = Inr t"
  by (cases v) (simp_all add: is_object_def)

lemma block_part_returns: "readable_block b \<Longrightarrow> \<exists>t. block_part rt b = Inr t"
proof (cases b)
  case (JObj kvs)
  assume "readable_block b"
  with JObj have plain: "\<not> is_object (case map_of kvs ''text'' of Some x \<Rightarrow> x | None \<Rightarrow> JUndef)"
    by (simp add: readable_block_def prop_of_def)
  show ?thesis
  proof (cases "map_of kvs ''text''")
    case None
    with JObj show ?thesis by (simp add: block_part_def)
  next
    case (Some v)
    with plain have "\<not> is_object v" by simp
    from ToString_returns [OF this, of rt] obtain t where "ToString rt v = Inr t" by blast
    with Some JObj show ?thesis by (simp add: block_part_def)
  qed
qed (simp_all add: readable_block_def block_part_def)

lemma message_text_returns: "readable_content c \<Longrightarrow> \<exists>t. message_text rt c = Inr t"
proof (cases c)
  case (JArr blocks)
  assume "readable_content c"
  with JArr have "\<forall>x \<in> set (map (block_part rt) blocks). \<exists>v. x = Inr v"
    by (auto simp: readable_content_def list_all_iff dest: block_part_returns)
  from sequence_returns [OF this] JArr show ?thesis
    by (auto simp: message_text_def)
qed (simp_all add: message_text_def)

lemma user_texts_returns:
  assumes "\<forall>msg \<in> set messages. is_user_message msg \<longrightarrow> readable_content (prop_of msg ''content'')"
  shows "\<exists>texts. user_texts rt messages = Inr texts"
  unfolding user_texts_def
proof (rule sequence_returns)
  show "\<forall>x \<in> set (map (\<lambda>msg. message_text rt (prop_of msg ''content''))
                      (filter is_user_message messages)). \<exists>v. x = Inr v"
    using assms by (auto dest: message_text_returns)
qed


text \<open>
  C8. For every message list, \<^verbatim>\<open>extractKeyFacts\<close> computes what the specification says. It
  reads the texts of the messages of role user only; when it throws, reading one of those
  texts threw the same error. The candidates of a text are the matches of the six
  patterns, in their order, and the match of a pattern is a first match of its category:
  a phone number, an email address, an identity statement, a preference, a reminder or a
  decision that stands in the text at the leftmost place where the text has one of that
  category, and no match when the text has none. Repetitions among the candidates of all
  the texts are removed, each value staying at its first occurrence, and the first five
  are kept: whatever is returned has at most five entries and no entry twice. A list is
  returned whenever a text can be read from every message of role user.
\<close>

theorem extractKeyFacts_spec:
  "extractKeyFacts rt messages =
     (case user_texts rt messages of
        Inl e \<Rightarrow> Inl e
      | Inr texts \<Rightarrow> Inr (take 5 (first_seen (concat (map first_matches texts)))))
   \<and> (\<forall>text. list_all2 (pick_of text) categories (map (match_re text) importantPatterns))
   \<and> (\<forall>facts. extractKeyFacts rt messages = Inr facts \<longrightarrow> length facts \<le> 5 \<and> distinct facts)
   \<and> ((\<forall>msg \<in> set messages. is_user_message msg \<longrightarrow> readable_content (prop_of msg ''content''))
        \<longrightarrow> (\<exists>facts. extractKeyFacts rt messages = Inr facts))"
proof -
  have run: "extractKeyFacts rt messages =
     (case user_texts rt messages of
        Inl e \<Rightarrow> Inl e
      | Inr texts \<Rightarrow> Inr (take 5 (first_seen (concat (map first_matches texts)))))"
    by (simp add: extractKeyFacts_def facts_loop_candidates new_Set_first_seen split: sum.splits)
  have picks: "list_all2 (pick_of t) categories (map (match_re t) importantPatterns)" for t
    using picks_of_patterns [of t importantPatterns] by (simp only: patterns_lang)
  have bound: "length facts \<le> 5 \<and> distinct facts"
    if "extractKeyFacts rt messages = Inr facts" for facts
    using that by (auto simp: run distinct_first_seen split: sum.splits)
  have total: "\<exists>facts. extractKeyFacts rt messages = Inr facts"
    if "\<forall>msg \<in> set messages. is_user_message msg \<longrightarrow> readable_content (prop_of msg ''content'')"
    using user_texts_returns [OF that, of rt] by (auto simp: run)
  from run picks bound total show ?thesis by blast
qed

theorem extractKeyFacts_spec_witness:
  "user_texts rt0 fact_turns =
     Inr [''Hi, my name is Sam: mail sam.s@mail.example.org or call +12345678901!'',
          ''I PREFER  tea. Remember to call Sam, I decided to go '', ''so my name is Sam'']
   \<and> extractKeyFacts rt0 fact_turns =
       Inr [''+12345678901'', ''sam.s@mail.example.org'', ''my name'', ''PREFER  '', ''Remember '']
   \<and> length [''+12345678901'', ''sam.s@mail.example.org'', ''my name'', ''PREFER  '', ''Remember ''] \<le> 5
   \<and> distinct [''+12345678901'', ''sam.s@mail.example.org'', ''my name'', ''PREFER  '', ''Remember '']
   \<and> leftmost_in phone_number
        ''Hi, my name is Sam: mail sam.s@mail.example.org or call +12345678901!'' ''+12345678901''
   \<and> leftmost_in email_address
        ''Hi, my name is Sam: mail sam.s@mail.example.org or call +12345678901!''
        ''sam.s@mail.example.org''
   \<and> leftmost_in identity_statement ''so my name is Sam'' ''my name''
   \<and> \<not> occurs_in preference ''so my name is Sam''
   \<and> leftmost_in preference ''I PREFER  tea. Remember to call Sam, I decided to go '' ''PREFER  ''
   \<and> leftmost_in reminder ''I PREFER  tea. Remember to call Sam, I decided to go '' ''Remember ''
   \<and> leftmost_in decision ''I PREFER  tea. Remember to call Sam, I decided to go '' ''decided ''"
proof -
  note spec = extractKeyFacts_spec [of rt0 fact_turns]
  have texts: "user_texts rt0 fact_turns =
     Inr [''Hi, my name is Sam: mail sam.s@mail.example.org or call +12345678901!'',
          ''I PREFER  tea. Remember to call Sam, I decided to go '', ''so my name is Sam'']"
    by code_simp
  have m1: "map (match_re ''Hi, my name is Sam: mail sam.s@mail.example.org or call +12345678901!'')
              importantPatterns
            = [Some ''+12345678901'', Some ''sam.s@mail.example.org'', Some ''my name'',
               None, None, None]"
    by code_simp
  have m2: "map (match_re ''I PREFER  tea. Remember to call Sam, I decided to go '')
              importantPatterns
            = [None, None, None, Some ''PREFER  '', Some ''Remember '', Some ''decided '']"
    by code_simp
  have m3: "map (match_re ''so my name is Sam'') importantPatterns
            = [None, None, Some ''my name'', None, None, None]"
    by code_simp
  from spec have eq: "extractKeyFacts rt0 fact_turns =
     (case user_texts rt0 fact_turns of
        Inl e \<Rightarrow> Inl e
      | Inr texts \<Rightarrow> Inr (take 5 (first_seen (concat (map first_matches texts)))))"
    by blast
  have run: "extractKeyFacts rt0 fact_turns =
       Inr [''+12345678901'', ''sam.s@mail.example.org'', ''my name'', ''PREFER  '', ''Remember '']"
    unfolding eq texts by (simp add: first_matches_def m1 m2 m3)
  from spec run
  have bound: "length [''+12345678901'', ''sam.s@mail.example.org'', ''my name'', ''PREFER  '', ''Remember ''] \<le> 5
      \<and> distinct [''+12345678901'', ''sam.s@mail.example.org'', ''my name'', ''PREFER  '', ''Remember '']"
    by blast
  from spec have picks: "list_all2 (pick_of t) categories (map (match_re t) importantPatterns)"
    for t
    by blast
  from picks [of "''Hi, my name is Sam: mail sam.s@mail.example.org or call +12345678901!''"]
  have p1: "leftmost_in phone_number
        ''Hi, my name is Sam: mail sam.s@mail.example.org or call +12345678901!'' ''+12345678901''
     \<and> leftmost_in email_address
        ''Hi, my name is Sam: mail sam.s@mail.example.org or call +12345678901!''
        ''sam.s@mail.example.org''"
    unfolding m1 categories_def by (simp add: pick_of_def)
  from picks [of "''I PREFER  tea. Remember to call Sam, I decided to go ''"]
  have p2: "leftmost_in preference ''I PREFER  tea. Remember to call Sam, I decided to go '' ''PREFER  ''
     \<and> leftmost_in reminder ''I PREFER  tea. Remember to call Sam, I decided to go '' ''Remember ''
     \<and> leftmost_in decision ''I PREFER  tea. Remember to call Sam, I decided to go '' ''decided ''"
    unfolding m2 categories_def by (simp add: pick_of_def)
  from picks [of "''so my name is Sam''"]
  have p3: "leftmost_in identity_statement ''so my name is Sam'' ''my name''
     \<and> \<not> occurs_in preference ''so my name is Sam''"
    unfolding m3 categories_def by (simp add: pick_of_def)
  from texts run bound p1 p2 p3 show ?thesis by blast
qed

text \<open>
  C7, on the code. A history whose only message is of role user and has the content
  \<^verbatim>\<open>[null]\<close>: the test \<^verbatim>\<open>typeof block === "object" && "text" in block\<close> evaluates
  \<^verbatim>\<open>"text" in null\<close>, and \<^verbatim>\<open>generateSummary\<close> throws a \<^verbatim>\<open>TypeError\<close>.
\<close>

theorem generateSummary_raises_on_null_block:
  "generateSummary rt0 [JObj [(''role'', JStr ''user''), (''content'', JArr [JNull])]]
     = Inl TypeError"
  by (simp add: generateSummary_def summary_text_def is_object_def prop_of_def
      typeof_object_def has_in_def)

text \<open>
  Where \<^verbatim>\<open>generateSummary\<close> returns, it returns the summary of the trimmed texts of the
  messages of role user; it throws exactly when reading one of those texts throws.
\<close>

lemma summary_loop_texts:
  "summary_loop rt msgs f l =
     (case summary_texts rt msgs of
        Inl e \<Rightarrow> Inl e
      | Inr texts \<Rightarrow>
          (case filter (\<lambda>t. t \<noteq> []) texts of
             [] \<Rightarrow> Inr (f, l)
           | t # ts \<Rightarrow> Inr (if f = [] then take 80 t else f, take 80 (last (t # ts)))))"
proof (induction msgs arbitrary: f l)
  case Nil
  show ?case by (simp add: summary_texts_def)
next
  case (Cons msg msgs)
  show ?case
  proof (cases "is_user_message msg")
    case False
    with Cons show ?thesis
      by (auto simp: is_user_message_def summary_texts_def)
  next
    case True
    show ?thesis
    proof (cases "summary_text rt (prop_of msg ''content'')")
      case (Inl e)
      with True show ?thesis
        by (simp add: is_user_message_def summary_texts_def)
    next
      case (Inr body)
      have texts: "summary_texts rt (msg # msgs) =
          (case summary_texts rt msgs of Inl e \<Rightarrow> Inl e | Inr ts \<Rightarrow> Inr (body # ts))"
        using True Inr by (simp add: summary_texts_def)
      show ?thesis
      proof (cases "body = []")
        case True
        with \<open>is_user_message msg\<close> Inr texts Cons [of f l] show ?thesis
          by (auto simp: is_user_message_def split: sum.splits)
      next
        case False
        with \<open>is_user_message msg\<close> Inr texts
          Cons [of "if f = [] then take 80 body else f" "take 80 body"]
        show ?thesis
          by (auto simp: is_user_message_def split: sum.splits list.splits)
      qed
    qed
  qed
qed

lemma filter_head: "filter P xs = y # ys \<Longrightarrow> P y"
proof -
  assume "filter P xs = y # ys"
  then have "y \<in> set (filter P xs)" by simp
  then show "P y" by simp
qed

lemma generateSummary_spec:
  "generateSummary rt messages =
     (case summary_texts rt messages of
        Inl e \<Rightarrow> Inl e
      | Inr texts \<Rightarrow> Inr (summary_of texts))"
  by (auto simp: generateSummary_def summary_loop_texts summary_of_def
      split: sum.splits list.splits dest: filter_head)

section \<open>Properties of the lifecycle controller\<close>


lemma connected_stdio:
  "connect (replying_sdk p) (new_AthenaClient stdio_config) = (Inr (), connected_session)"
  by (simp add: connect_def connectStdio_def replying_sdk_def new_AthenaClient_def
      stdio_config_def stdio_transport_def or_default_def endsWith_def Let_def
      connected_session_def)


lemma connect_no_tool_call:
  "filter is_tool_call (sdk_log (snd (connect env s))) = filter is_tool_call (sdk_log s)"
  by (auto simp: connect_def connectStdio_def connectSSE_def Let_def is_tool_call_def
      split: prod.splits option.splits)




text \<open>
  C3, as amended. Take a turn-start event whose prompt is absent, empty or of at most ten
  characters. The handler returns no instruction and invokes no tool. What it does to the
  session is exactly what \<^verbatim>\<open>connect()\<close> does, which it calls before it looks at the prompt:
  the session ends connected when that call succeeds, and not connected when it throws.
\<close>

theorem before_agent_start_skips_recall:
  assumes "recall_skipped event"
  shows "before_agent_start rt env event s = (None, snd (connect env s))
     \<and> filter is_tool_call (sdk_log (snd (before_agent_start rt env event s)))
         = filter is_tool_call (sdk_log s)
     \<and> isConnected (snd (before_agent_start rt env event s)) = (fst (connect env s) = Inr ())"
proof -
  obtain r s1 where c: "connect env s = (r, s1)" by (cases "connect env s")
  from assms have run: "before_agent_start rt env event s = (None, s1)"
    by (cases r)
      (auto simp: before_agent_start_def before_agent_start_try_def c recall_skipped_def
        prompt_nonempty_def Let_def split: option.splits prompt.splits)
  have "isConnected (snd (connect env s)) = (fst (connect env s) = Inr ())"
    by (auto simp: connect_def isConnected_def split: prod.splits option.splits)
  with run c connect_no_tool_call [of env s] show ?thesis by simp
qed

theorem before_agent_start_skips_recall_witness:
  "recall_skipped \<lparr>ev_prompt = Some (PromptString ''hi there'')\<rparr>
   \<and> before_agent_start rt1 (replying_sdk search_payload)
        \<lparr>ev_prompt = Some (PromptString ''hi there'')\<rparr> (new_AthenaClient stdio_config)
      = (None, connected_session)
   \<and> isConnected connected_session
   \<and> fst (connect refusing_sdk (new_AthenaClient stdio_config))
      = Inl (ConnectionError ''Error: spawn python3 ENOENT'')
   \<and> \<not> isConnected (snd (before_agent_start rt1 refusing_sdk
        \<lparr>ev_prompt = Some (PromptString ''hi there'')\<rparr> (new_AthenaClient stdio_config)))"
proof -
  have skipped: "recall_skipped \<lparr>ev_prompt = Some (PromptString ''hi there'')\<rparr>"
    by (simp add: recall_skipped_def)
  from before_agent_start_skips_recall [OF skipped, of rt1 "replying_sdk search_payload"
      "new_AthenaClient stdio_config"]
  have "before_agent_start rt1 (replying_sdk search_payload)
        \<lparr>ev_prompt = Some (PromptString ''hi there'')\<rparr> (new_AthenaClient stdio_config)
      = (None, snd (connect (replying_sdk search_payload) (new_AthenaClient stdio_config)))"
    by blast
  then have accepted: "before_agent_start rt1 (replying_sdk search_payload)
        \<lparr>ev_prompt = Some (PromptString ''hi there'')\<rparr> (new_AthenaClient stdio_config)
      = (None, connected_session)"
    by (simp add: connected_stdio)
  have live: "isConnected connected_session"
    by (simp add: isConnected_def connected_session_def)
  have refused: "fst (connect refusing_sdk (new_AthenaClient stdio_config))
      = Inl (ConnectionError ''Error: spawn python3 ENOENT'')"
    by (simp add: connect_def connectStdio_def refusing_sdk_def new_AthenaClient_def
        stdio_config_def Let_def)
  from before_agent_start_skips_recall [OF skipped, of rt1 refusing_sdk
      "new_AthenaClient stdio_config"]
  have "isConnected (snd (before_agent_start rt1 refusing_sdk
        \<lparr>ev_prompt = Some (PromptString ''hi there'')\<rparr> (new_AthenaClient stdio_config)))
      = (fst (connect refusing_sdk (new_AthenaClient stdio_config)) = Inr ())"
    by blast
  with refused
  have "\<not> isConnected (snd (before_agent_start rt1 refusing_sdk
        \<lparr>ev_prompt = Some (PromptString ''hi there'')\<rparr> (new_AthenaClient stdio_config)))"
    by simp
  with skipped accepted live refused show ?thesis by blast
qed

text \<open>
  C3, as stated, fails: with the prompt \<^verbatim>\<open>hi\<close> a fresh session is connected by the handler
  (the SDK handshake is performed), although recall is skipped.
\<close>

theorem short_prompt_still_connects:
  "\<not> isConnected (new_AthenaClient stdio_config)
   \<and> before_agent_start rt1 (replying_sdk search_payload)
        \<lparr>ev_prompt = Some (PromptString ''hi'')\<rparr> (new_AthenaClient stdio_config)
      = (None, connected_session)
   \<and> isConnected connected_session
   \<and> sdk_log connected_session = [SdkConnect stdio_transport]"
proof -
  have fresh: "\<not> isConnected (new_AthenaClient stdio_config)"
    by (simp add: isConnected_def new_AthenaClient_def)
  have run: "before_agent_start rt1 (replying_sdk search_payload)
        \<lparr>ev_prompt = Some (PromptString ''hi'')\<rparr> (new_AthenaClient stdio_config)
      = (None, connected_session)"
    by (simp add: before_agent_start_def before_agent_start_try_def connected_stdio
        prompt_nonempty_def)
  have "isConnected connected_session \<and> sdk_log connected_session = [SdkConnect stdio_transport]"
    by (simp add: isConnected_def connected_session_def)
  with fresh run show ?thesis by simp
qed

text \<open>
  C1, on the code. The search reply has two candidates; the filter \<^verbatim>\<open>rrf_score > 0.01\<close>
  keeps the first only. The instruction the handler returns is built from
  \<^verbatim>\<open>parseSearchResults(resultText)\<close>, which formats every candidate of the reply, so its
  text has a line for the candidate that was filtered out too.
\<close>

theorem recall_injects_filtered_out_candidate:
  "filter_e (is_meaningful rt1) [candidate_a, candidate_b] = Inr [candidate_a]
   \<and> fst (before_agent_start rt1 (replying_sdk search_payload)
        \<lparr>ev_prompt = Some (PromptString ''What is my phone number?'')\<rparr>
        (new_AthenaClient stdio_config))
      = Some (''[Athena Memory] Relevant context from past sessions:'' @ newline
              @ ''[50.0%] a.md: call Sam'' @ newline @ ''[0.8%] b.md: buy milk'')"
  by code_simp

text \<open>
  The parts of the recall that the code gets right: a reply none of whose candidates
  passes the filter yields no instruction, and a score of \<open>0.25\<close> is written \<^verbatim>\<open>25.0\<close>.
\<close>

lemma quarter_renders: "toFixed1 rt (Some (1 / 4 * 100)) = ''25.0''"
  by code_simp

lemma none_meaningful_no_context:
  "JSON_parse rt text = Some parsed \<Longrightarrow> results_of parsed = Inr (JArr rs) \<Longrightarrow>
   filter_e (is_meaningful rt) rs = Inr [] \<Longrightarrow> recall_context rt text = Inr None"
  by (simp add: recall_context_def array_of_def)

section \<open>Properties of the configuration parser\<close>

text \<open>
  \<open>env_ref\<close> agrees with the backtracking matcher on \<open>env_pattern\<close>: it succeeds where the
  pattern matches at the start of the string, with the first capture group as the name and
  the text after the match as the rest.
\<close>

lemma greedy_until:
  "concat (map (ms (chr c)) (greedy (\<lambda>x. x \<noteq> c) n body)) =
     (if n \<le> length (takeWhile (\<lambda>x. x \<noteq> c) body) \<and> dropWhile (\<lambda>x. x \<noteq> c) body \<noteq> []
      then [tl (dropWhile (\<lambda>x. x \<noteq> c) body)] else [])"
proof (induction body arbitrary: n)
  case Nil
  show ?case by (simp add: chr_def)
next
  case (Cons a body)
  show ?case
  proof (cases "a = c")
    case True
    then show ?thesis by (simp add: chr_def)
  next
    case False
    then have "concat (map (ms (chr c)) (greedy (\<lambda>x. x \<noteq> c) n (a # body)))
        = concat (map (ms (chr c)) (greedy (\<lambda>x. x \<noteq> c) (n - 1) body))"
      by (simp add: chr_def)
    also note Cons.IH [of "n - 1"]
    finally show ?thesis using False by (cases n) simp_all
  qed
qed

lemma env_ref_is_pattern:
  "env_ref s =
     (case ms env_pattern s of
        [] \<Rightarrow> None
      | rest # others \<Rightarrow> Some (butlast (drop 2 (take (length s - length rest) s)), rest))"
proof (cases s)
  case Nil
  then show ?thesis by (simp add: env_ref_def env_pattern_def chr_def)
next
  case (Cons c1 s1)
  show ?thesis
  proof (cases s1)
    case Nil
    with Cons show ?thesis by (simp add: env_ref_def env_pattern_def chr_def)
  next
    case (Cons c2 body)
    note s = \<open>s = c1 # s1\<close> \<open>s1 = c2 # body\<close>
    show ?thesis
    proof (cases "c1 = CHR ''$'' \<and> c2 = CHR ''{''")
      case False
      with s show ?thesis by (auto simp: env_ref_def env_pattern_def chr_def)
    next
      case True
      let ?p = "\<lambda>x. x \<noteq> CHR ''}''"
      from True s have m: "ms env_pattern s =
          concat (map (ms (chr CHR ''}'')) (greedy ?p 1 body))"
        by (simp add: env_pattern_def chr_def)
      show ?thesis
      proof (cases "1 \<le> length (takeWhile ?p body) \<and> dropWhile ?p body \<noteq> []")
        case False
        with True s m show ?thesis
          by (auto simp: greedy_until env_ref_def Let_def Suc_le_eq)
      next
        case ok: True
        then obtain rest where d: "dropWhile ?p body = CHR ''}'' # rest"
          by (cases "dropWhile ?p body") (auto simp: dropWhile_eq_Cons_conv)
        have body: "body = takeWhile ?p body @ CHR ''}'' # rest"
          using takeWhile_dropWhile_id [of ?p body] d by simp
        have "length s - length rest = Suc (Suc (Suc (length (takeWhile ?p body))))"
          using s body by (metis length_Cons length_append add_diff_cancel_right' add_Suc_right add_Suc)
        moreover have "take (Suc (Suc (Suc (length (takeWhile ?p body))))) s
            = c1 # c2 # takeWhile ?p body @ [CHR ''}'']"
          using s body by (metis append.simps(1,2) append_eq_conv_conj take_Suc_Cons append_assoc length_append_singleton)
        ultimately have "butlast (drop 2 (take (length s - length rest) s)) = takeWhile ?p body"
          by simp
        moreover from ok have "takeWhile ?p body \<noteq> []"
          by auto
        moreover from body have "CHR ''}'' \<in> set body"
          by (metis in_set_conv_decomp)
        ultimately show ?thesis using True s m ok d
          by (simp add: greedy_until env_ref_def Let_def)
      qed
    qed
  qed
qed







lemma resolveEnvVars_succeeds:
  "\<forall>v \<in> set (env_refs s). usable nd v \<Longrightarrow>
     resolveEnvVars nd s = Inr (substitute (env_value nd) s)"
proof (induction nd s rule: resolveEnvVars.induct)
  case (1 nd)
  show ?case by simp
next
  case (2 nd c cs)
  show ?case
  proof (cases "env_ref (c # cs)")
    case None
    with "2.IH"(1) "2.prems" show ?thesis by simp
  next
    case (Some a)
    obtain v rest where a: "a = (v, rest)" by (cases a)
    with Some "2.prems" have u: "usable nd v"
      and rest: "\<forall>w \<in> set (env_refs rest). usable nd w"
      by auto
    from u obtain x where x: "process_env nd v = Some x" "x \<noteq> []"
      by (auto simp: usable_def split: option.splits)
    from x have val: "env_value nd v = x"
      by (simp add: env_value_def)
    from x have found: "env_lookup nd v = Some x"
      by (simp add: env_lookup_def)
    from "2.IH"(2) [OF Some [unfolded a] refl found rest]
    have "resolveEnvVars nd rest = Inr (substitute (env_value nd) rest)" .
    with Some a found val show ?thesis
      by simp
  qed
qed

lemma assertAllowedKeys_ok:
  "set (map fst cfg) \<subseteq> set allowed \<Longrightarrow> assertAllowedKeys cfg allowed = Inr ()"
  by (auto simp: assertAllowedKeys_def Let_def filter_empty_conv)


lemma string_or_usable:
  "refs_usable nd v \<Longrightarrow>
     string_or nd v d = Inr (case v of JStr s \<Rightarrow> substitute (env_value nd) s | _ \<Rightarrow> d)"
  by (cases v) (simp_all add: string_or_def refs_usable_def list_all_iff resolveEnvVars_succeeds)

lemma parse_known_keys:
  "set (map fst cfg) \<subseteq> set allowed_keys \<Longrightarrow>
   parse nd (JObj cfg) =
     (case string_or nd (prop_of (JObj cfg) ''pythonPath'') DEFAULT_PYTHON_PATH of
        Inl e \<Rightarrow> Inl e
      | Inr p \<Rightarrow>
          (case string_or nd (prop_of (JObj cfg) ''athenaProjectDir'')
                  (resolveDefaultAthenaProjectDir nd) of
             Inl e \<Rightarrow> Inl e
           | Inr a \<Rightarrow>
               (case string_or nd (prop_of (JObj cfg) ''sseUrl'') DEFAULT_SSE_URL of
                  Inl e \<Rightarrow> Inl e
                | Inr u \<Rightarrow>
                    Inr \<lparr>enabled = (prop_of (JObj cfg) ''enabled'' = JBool True),
                         transport_kind =
                           (if prop_of (JObj cfg) ''transport'' = JStr ''sse'' then Sse else Stdio),
                         pythonPath = p, athenaProjectDir = a, sseUrl = u,
                         toolPrefix =
                           (case prop_of (JObj cfg) ''toolPrefix'' of
                              JStr s \<Rightarrow> s
                            | _ \<Rightarrow> DEFAULT_TOOL_PREFIX)\<rparr>)))"
  by (simp add: parse_def assertAllowedKeys_ok)


text \<open>
  C10, as amended. Take a settings object with recognized keys only, in which every
  variable that a string-valued \<^verbatim>\<open>pythonPath\<close>, \<^verbatim>\<open>athenaProjectDir\<close> or \<^verbatim>\<open>sseUrl\<close> refers to
  is set to a value that is not empty. Then parsing succeeds whatever the types of the
  values: the transport is \<^verbatim>\<open>sse\<close> exactly when the setting is the string \<^verbatim>\<open>sse\<close> and
  \<^verbatim>\<open>stdio\<close> otherwise, \<^verbatim>\<open>enabled\<close> is true exactly when the setting is the boolean true,
  and each of the four string settings that is not a string takes its default.
\<close>

theorem parse_accepts_any_value_type:
  assumes "set (map fst cfg) \<subseteq> set allowed_keys"
    and "refs_usable nd (prop_of (JObj cfg) ''pythonPath'')"
    and "refs_usable nd (prop_of (JObj cfg) ''athenaProjectDir'')"
    and "refs_usable nd (prop_of (JObj cfg) ''sseUrl'')"
  shows "\<exists>c. parse nd (JObj cfg) = Inr c
     \<and> transport_kind c = (if prop_of (JObj cfg) ''transport'' = JStr ''sse'' then Sse else Stdio)
     \<and> enabled c = (prop_of (JObj cfg) ''enabled'' = JBool True)
     \<and> (\<not> is_string (prop_of (JObj cfg) ''pythonPath'') \<longrightarrow> pythonPath c = ''python3'')
     \<and> (\<not> is_string (prop_of (JObj cfg) ''athenaProjectDir'')
          \<longrightarrow> athenaProjectDir c = resolveDefaultAthenaProjectDir nd)
     \<and> (\<not> is_string (prop_of (JObj cfg) ''sseUrl'') \<longrightarrow> sseUrl c = ''http://localhost:8765'')
     \<and> (\<not> is_string (prop_of (JObj cfg) ''toolPrefix'') \<longrightarrow> toolPrefix c = ''athena_'')"
  using assms(2-4)
  by (simp add: parse_known_keys [OF assms(1)] string_or_usable is_string_def
      DEFAULT_PYTHON_PATH_def DEFAULT_SSE_URL_def DEFAULT_TOOL_PREFIX_def split: jv.splits)




theorem parse_accepts_any_value_type_witness:
  "set (map fst typed_settings) \<subseteq> set allowed_keys
   \<and> refs_usable nd0 (prop_of (JObj typed_settings) ''pythonPath'')
   \<and> refs_usable nd0 (prop_of (JObj typed_settings) ''athenaProjectDir'')
   \<and> refs_usable nd0 (prop_of (JObj typed_settings) ''sseUrl'')
   \<and> parse nd0 (JObj typed_settings) =
       Inr \<lparr>enabled = False, transport_kind = Stdio, pythonPath = ''python3'',
            athenaProjectDir = ''/srv/athena/Athena-Public'',
            sseUrl = ''http://localhost:8765'', toolPrefix = ''athena_''\<rparr>"
proof -
  have keys: "set (map fst typed_settings) \<subseteq> set allowed_keys"
    by (simp add: typed_settings_def allowed_keys_def)
  have p: "refs_usable nd0 (prop_of (JObj typed_settings) ''pythonPath'')"
    by code_simp
  have a: "refs_usable nd0 (prop_of (JObj typed_settings) ''athenaProjectDir'')"
    by code_simp
  have u: "refs_usable nd0 (prop_of (JObj typed_settings) ''sseUrl'')"
    by code_simp
  have run: "parse nd0 (JObj typed_settings) =
       Inr \<lparr>enabled = False, transport_kind = Stdio, pythonPath = ''python3'',
            athenaProjectDir = ''/srv/athena/Athena-Public'',
            sseUrl = ''http://localhost:8765'', toolPrefix = ''athena_''\<rparr>"
    by code_simp
  have types: "\<not> is_string (prop_of (JObj typed_settings) ''pythonPath'')
     \<and> \<not> is_string (prop_of (JObj typed_settings) ''sseUrl'')
     \<and> \<not> is_string (prop_of (JObj typed_settings) ''toolPrefix'')
     \<and> prop_of (JObj typed_settings) ''transport'' \<noteq> JStr ''sse''
     \<and> prop_of (JObj typed_settings) ''enabled'' \<noteq> JBool True"
    by code_simp
  from parse_accepts_any_value_type [OF keys p a u] types
  obtain c where c: "parse nd0 (JObj typed_settings) = Inr c"
    and fields: "transport_kind c = Stdio" "enabled c = False" "pythonPath c = ''python3''"
      "sseUrl c = ''http://localhost:8765''" "toolPrefix c = ''athena_''"
    by auto
  from c run have "athenaProjectDir c = ''/srv/athena/Athena-Public''"
    by auto
  with fields have "c = \<lparr>enabled = False, transport_kind = Stdio, pythonPath = ''python3'',
            athenaProjectDir = ''/srv/athena/Athena-Public'',
            sseUrl = ''http://localhost:8765'', toolPrefix = ''athena_''\<rparr>"
    by (cases c) simp
  with c keys p a u show ?thesis by simp
qed

text \<open>
  C10, as stated, fails: the settings have one recognized key and refer to no variable that
  is unset, since \<^verbatim>\<open>EMPTY\<close> is set, to the empty string; parsing is rejected all the same.
\<close>

theorem empty_variable_rejected:
  "set (map fst [(''pythonPath'', JStr ''${EMPTY}/bin/python'')]) \<subseteq> set allowed_keys
   \<and> env_refs ''${EMPTY}/bin/python'' = [''EMPTY'']
   \<and> process_env nd0 ''EMPTY'' = Some []
   \<and> parse nd0 (JObj [(''pythonPath'', JStr ''${EMPTY}/bin/python'')]) = Inl (EnvVarNotSet ''EMPTY'')"
  by code_simp

end
